theory Spec2Isabelle
  imports Main
begin

section \<open>Python values used by the scanner\<close>

text \<open>
  A Python \<^verbatim>\<open>bytes\<close> object is a list of bytes (\<^typ>\<open>char\<close> is a byte in HOL).
  A Python \<^verbatim>\<open>str\<close> is represented by its UTF-8 encoding: the scanner only compares
  strings, tests them for emptiness, concatenates them, strips ASCII quote characters and
  splits at an ASCII dot, and all of these agree with the same operation on the encoding.
\<close>

type_synonym str = string
type_synonym bytes = string
type_synonym path = string

datatype pyerror = AttributeError | UnicodeDecodeError | OSError | ValueError

text \<open>The argument \<^verbatim>\<open>source_code\<close> of \<^verbatim>\<open>_get_node_text\<close> is dynamically typed:
  \<^verbatim>\<open>scan_project\<close> passes bytes, \<^verbatim>\<open>get_method_source\<close> passes a decoded str.\<close>

datatype pyobj = PyBytes bytes | PyStr str

text \<open>Outcome of a statement sequence that mutates state: it completes, or an exception
  propagates; the mutations made before the exception stay in place.\<close>

datatype 's outcome = Done 's | Raised pyerror 's

fun state_of :: "'s outcome \<Rightarrow> 's" where
  "state_of (Done s) = s"
| "state_of (Raised e s) = s"

subsection \<open>\<^verbatim>\<open>bytes.decode('utf-8')\<close>\<close>

definition cont_byte :: "char \<Rightarrow> bool" where
  "cont_byte c = (0x80 \<le> (of_char c :: nat) \<and> (of_char c :: nat) \<le> 0xBF)"

text \<open>Well-formed UTF-8 (strict, as Python decodes it): no overlong forms, no surrogates,
  nothing above U+10FFFF.\<close>

fun valid_utf8 :: "bytes \<Rightarrow> bool" where
  "valid_utf8 [] = True"
| "valid_utf8 (b # bs) =
     (let n = (of_char b :: nat) in
      if n < 0x80 then valid_utf8 bs
      else if 0xC2 \<le> n \<and> n \<le> 0xDF then
        (case bs of c1 # r \<Rightarrow> cont_byte c1 \<and> valid_utf8 r | _ \<Rightarrow> False)
      else if 0xE0 \<le> n \<and> n \<le> 0xEF then
        (case bs of
           c1 # c2 # r \<Rightarrow>
             cont_byte c1 \<and> cont_byte c2
             \<and> (if n = 0xE0 then 0xA0 \<le> (of_char c1 :: nat) else True)
             \<and> (if n = 0xED then (of_char c1 :: nat) \<le> 0x9F else True)
             \<and> valid_utf8 r
         | _ \<Rightarrow> False)
      else if 0xF0 \<le> n \<and> n \<le> 0xF4 then
        (case bs of
           c1 # c2 # c3 # r \<Rightarrow>
             cont_byte c1 \<and> cont_byte c2 \<and> cont_byte c3
             \<and> (if n = 0xF0 then 0x90 \<le> (of_char c1 :: nat) else True)
             \<and> (if n = 0xF4 then (of_char c1 :: nat) \<le> 0x8F else True)
             \<and> valid_utf8 r
         | _ \<Rightarrow> False)
      else False)"

definition decode_utf8 :: "bytes \<Rightarrow> pyerror + str" where
  "decode_utf8 bs = (if valid_utf8 bs then Inr bs else Inl UnicodeDecodeError)"

text \<open>\<^verbatim>\<open>b[i:j]\<close> for non-negative \<^verbatim>\<open>i\<close>, \<^verbatim>\<open>j\<close>: clipped to the length, empty when \<^verbatim>\<open>j \<le> i\<close>.\<close>

definition slice :: "'a list \<Rightarrow> nat \<Rightarrow> nat \<Rightarrow> 'a list" where
  "slice xs i j = take (j - i) (drop i xs)"

text \<open>\<^verbatim>\<open>s.strip(chars)\<close>: leading and trailing characters from \<^verbatim>\<open>chars\<close> removed.\<close>

definition strip :: "str \<Rightarrow> char list \<Rightarrow> str" where
  "strip s cs = rev (dropWhile (\<lambda>c. c \<in> set cs) (rev (dropWhile (\<lambda>c. c \<in> set cs) s)))"

text \<open>The argument \<^verbatim>\<open>'\'"'\<close> of the strip in the import branch: apostrophe and double quote.\<close>

definition quote_chars :: "char list" where
  "quote_chars = [CHR 0x27, CHR 0x22]"

definition startswith :: "string \<Rightarrow> string \<Rightarrow> bool" where
  "startswith s p = (take (length p) s = p)"

text \<open>Truth value of a variable that holds \<^verbatim>\<open>None\<close> or a str.\<close>

fun truthy :: "str option \<Rightarrow> bool" where
  "truthy None = False"
| "truthy (Some s) = (s \<noteq> [])"

section \<open>Syntax-tree nodes (the view of a tree-sitter node that the scanner reads)\<close>

text \<open>
  \<^verbatim>\<open>field_name\<close> is the field under which the node hangs in its parent (for
  \<^verbatim>\<open>child_by_field_name\<close>); \<^verbatim>\<open>parent\<close> is the byte span of \<^verbatim>\<open>node.parent\<close>
  (\<^verbatim>\<open>None\<close> at the root), the only attributes of the parent that are read.
\<close>

datatype node =
  Node (field_name: "string option") (node_type: string) (start_byte: nat) (end_byte: nat)
       (parent: "(nat \<times> nat) option") (children: "node list")

definition child_by_field_name :: "node \<Rightarrow> string \<Rightarrow> node option" where
  "child_by_field_name n f = List.find (\<lambda>c. field_name c = Some f) (children n)"

text \<open>\<^verbatim>\<open>CodeScanner._get_node_text\<close>:
  \<^verbatim>\<open>source_code[node.start_byte:node.end_byte].decode('utf-8')\<close>.
  A \<^verbatim>\<open>None\<close> node has no \<^verbatim>\<open>start_byte\<close>, a str has no \<^verbatim>\<open>decode\<close>.\<close>

fun get_node_text :: "node option \<Rightarrow> pyobj \<Rightarrow> pyerror + str" where
  "get_node_text None source_code = Inl AttributeError"
| "get_node_text (Some n) (PyBytes b) = decode_utf8 (slice b (start_byte n) (end_byte n))"
| "get_node_text (Some n) (PyStr s) = Inl AttributeError"

section \<open>Entities and dependencies\<close>

text \<open>The dicts appended to \<^verbatim>\<open>entities['classes']\<close> and \<^verbatim>\<open>entities['methods']\<close>;
  a class dict has no \<^verbatim>\<open>'class'\<close> key.\<close>

record entity =
  ent_name :: str
  ent_class :: "str option"
  ent_file :: path
  ent_start :: nat
  ent_end :: nat

text \<open>The dicts appended to \<^verbatim>\<open>entities['dependencies']\<close>. An inheritance dict carries the
  key \<^verbatim>\<open>'interfaces'\<close> or the key \<^verbatim>\<open>'parent'\<close>; an absent key is \<^verbatim>\<open>None\<close> here.\<close>

datatype dependency =
  MethodCall (caller_class: str) (caller_method: str) (callee: str) (call_file: path)
| Import (import_file: path) (import_path: str)
| Inheritance (inh_class: str) (inh_file: path) (interfaces: "str list option")
    (parent_class: "str option")

section \<open>The graph store\<close>

text \<open>
  A property graph: nodes with one label and a property map, relationships between node
  indices. The Cypher statements are the ones \<^verbatim>\<open>graph_db.py\<close> sends; \<^verbatim>\<open>MERGE\<close> matches
  every node that has the label and the listed properties and creates one when none
  matches, and every later clause of a statement runs once per matched row.
\<close>

record gnode =
  label :: string
  props :: "(string \<times> string) list"

record graph =
  nodes :: "gnode list"
  rels :: "(nat \<times> string \<times> nat) list"

definition matches :: "string \<Rightarrow> (string \<times> string) list \<Rightarrow> gnode \<Rightarrow> bool" where
  "matches l kvs n = (label n = l \<and> list_all (\<lambda>(k, v). map_of (props n) k = Some v) kvs)"

definition match_nodes :: "graph \<Rightarrow> string \<Rightarrow> (string \<times> string) list \<Rightarrow> nat list" where
  "match_nodes g l kvs = filter (\<lambda>i. matches l kvs (nodes g ! i)) [0 ..< length (nodes g)]"

text \<open>\<^verbatim>\<open>MERGE (x:L {k: v, ...})\<close>: the graph after the clause and the nodes bound to \<^verbatim>\<open>x\<close>.\<close>

definition merge_node :: "string \<Rightarrow> (string \<times> string) list \<Rightarrow> graph \<Rightarrow> graph \<times> nat list" where
  "merge_node l kvs g =
     (case match_nodes g l kvs of
        [] \<Rightarrow> (g\<lparr>nodes := nodes g @ [\<lparr>label = l, props = kvs\<rparr>]\<rparr>, [length (nodes g)])
      | i # is \<Rightarrow> (g, i # is))"

text \<open>\<^verbatim>\<open>MERGE (a)-[:T]->(b)\<close> for one row.\<close>

definition merge_rel :: "string \<Rightarrow> nat \<times> nat \<Rightarrow> graph \<Rightarrow> graph" where
  "merge_rel t ab g =
     (if (fst ab, t, snd ab) \<in> set (rels g) then g
      else g\<lparr>rels := rels g @ [(fst ab, t, snd ab)]\<rparr>)"

definition merge_rels :: "string \<Rightarrow> (nat \<times> nat) list \<Rightarrow> graph \<Rightarrow> graph" where
  "merge_rels t rows g = fold (merge_rel t) rows g"

text \<open>Rows of a leading \<^verbatim>\<open>MATCH\<close>, then \<^verbatim>\<open>MERGE (b:L {...})\<close> and
  \<^verbatim>\<open>MERGE (a)-[:T]->(b)\<close>. With no row the \<^verbatim>\<open>MERGE\<close> clauses do not run.\<close>

definition match_merge ::
  "nat list \<Rightarrow> string \<Rightarrow> (string \<times> string) list \<Rightarrow> string \<Rightarrow> graph \<Rightarrow> graph" where
  "match_merge rows l kvs t g =
     (if rows = [] then g
      else (case merge_node l kvs g of
              (g1, bs) \<Rightarrow> merge_rels t (concat (map (\<lambda>a. map (\<lambda>b. (a, b)) bs) rows)) g1))"

text \<open>\<^verbatim>\<open>_create_class_node_transaction\<close>: \<^verbatim>\<open>MERGE (c:Class {name: $name, file: $file})\<close>.\<close>

definition create_class_node_transaction :: "str \<Rightarrow> path \<Rightarrow> graph \<Rightarrow> graph" where
  "create_class_node_transaction class_name file_path g =
     fst (merge_node ''Class'' [(''name'', class_name), (''file'', file_path)] g)"

text \<open>\<^verbatim>\<open>_create_method_node_transaction\<close>: merge the method node, merge its class node,
  merge \<^verbatim>\<open>(c)-[:HAS_METHOD]->(m)\<close>.\<close>

definition create_method_node_transaction :: "str \<Rightarrow> str \<Rightarrow> path \<Rightarrow> graph \<Rightarrow> graph" where
  "create_method_node_transaction method_name class_name file_path g =
     (case merge_node ''Method''
             [(''name'', method_name), (''class'', class_name), (''file'', file_path)] g of
        (g1, ms) \<Rightarrow>
          (case merge_node ''Class'' [(''name'', class_name), (''file'', file_path)] g1 of
             (g2, cs) \<Rightarrow>
               merge_rels ''HAS_METHOD''
                 (concat (map (\<lambda>m. map (\<lambda>c. (c, m)) cs) ms)) g2))"

text \<open>\<^verbatim>\<open>callee.split('.', 1)\<close> unpacked into two names: a \<^verbatim>\<open>ValueError\<close> (here \<^verbatim>\<open>None\<close>)
  when the callee has no dot.\<close>

definition split_callee :: "str \<Rightarrow> (str \<times> str) option" where
  "split_callee s =
     (if CHR ''.'' \<in> set s
      then Some (takeWhile (\<lambda>c. c \<noteq> CHR ''.'') s, tl (dropWhile (\<lambda>c. c \<noteq> CHR ''.'') s))
      else None)"

text \<open>The statement of the \<^verbatim>\<open>method_call\<close> branch: the caller rows are the pairs of a class
  node and a method node joined by \<^verbatim>\<open>BELONGS_TO\<close>.\<close>

definition merge_call :: "str \<Rightarrow> str \<Rightarrow> str \<Rightarrow> graph \<Rightarrow> graph" where
  "merge_call caller_cls caller_meth callee_name g =
     match_merge
       (concat (map (\<lambda>cc. filter (\<lambda>cm. (cm, ''BELONGS_TO'', cc) \<in> set (rels g))
                               (match_nodes g ''Method'' [(''name'', caller_meth)]))
                    (match_nodes g ''Class'' [(''name'', caller_cls)])))
       ''Method'' [(''name'', callee_name)] ''CALLS'' g"

definition merge_import :: "path \<Rightarrow> str \<Rightarrow> graph \<Rightarrow> graph" where
  "merge_import file_path ipath g =
     match_merge (match_nodes g ''Class'' [(''file'', file_path)])
       ''Import'' [(''path'', ipath)] ''IMPORTS'' g"

definition merge_implements :: "str \<Rightarrow> path \<Rightarrow> str \<Rightarrow> graph \<Rightarrow> graph" where
  "merge_implements class_name file_path interface g =
     match_merge (match_nodes g ''Class'' [(''name'', class_name), (''file'', file_path)])
       ''Interface'' [(''name'', interface)] ''IMPLEMENTS'' g"

definition merge_extends :: "str \<Rightarrow> path \<Rightarrow> str \<Rightarrow> graph \<Rightarrow> graph" where
  "merge_extends class_name file_path parent_name g =
     match_merge (match_nodes g ''Class'' [(''name'', class_name), (''file'', file_path)])
       ''Class'' [(''name'', parent_name)] ''EXTENDS'' g"

text \<open>\<^verbatim>\<open>_create_dependency_transaction\<close>: the new graph and the callees warned about.
  The \<^verbatim>\<open>'interfaces'\<close> key is tested before the \<^verbatim>\<open>'parent'\<close> key.\<close>

fun create_dependency_transaction :: "dependency \<Rightarrow> graph \<Rightarrow> graph \<times> str list" where
  "create_dependency_transaction (MethodCall cc cm cal f) g =
     (case split_callee cal of
        None \<Rightarrow> (g, [cal])
      | Some (callee_object, callee_method) \<Rightarrow> (merge_call cc cm cal g, []))"
| "create_dependency_transaction (Import f p) g = (merge_import f p g, [])"
| "create_dependency_transaction (Inheritance c f (Some ifs) par) g =
     (fold (\<lambda>interface. merge_implements c f interface) ifs g, [])"
| "create_dependency_transaction (Inheritance c f None (Some p)) g = (merge_extends c f p g, [])"
| "create_dependency_transaction (Inheritance c f None None) g = (g, [])"

section \<open>The scanner\<close>

datatype persister_call =
  CreateClassNode str path
| CreateMethodNode str str path
| CreateDependency dependency

text \<open>The \<^verbatim>\<open>entities\<close> dict of a scan (\<^verbatim>\<open>classes\<close>, \<^verbatim>\<open>methods\<close>, \<^verbatim>\<open>dependencies\<close>)
  together with what \<^verbatim>\<open>self.graph\<close> holds: the database, the calls received, in order,
  and the callees its logger warned about. A transaction is taken to commit.\<close>

record scanner =
  classes :: "entity list"
  methods :: "entity list"
  dependencies :: "dependency list"
  store :: graph
  calls :: "persister_call list"
  warnings :: "str list"

definition create_class_node :: "str \<Rightarrow> path \<Rightarrow> scanner \<Rightarrow> scanner" where
  "create_class_node class_name file_path st =
     st\<lparr>store := create_class_node_transaction class_name file_path (store st),
        calls := calls st @ [CreateClassNode class_name file_path]\<rparr>"

definition create_method_node :: "str \<Rightarrow> str \<Rightarrow> path \<Rightarrow> scanner \<Rightarrow> scanner" where
  "create_method_node method_name class_name file_path st =
     st\<lparr>store := create_method_node_transaction method_name class_name file_path (store st),
        calls := calls st @ [CreateMethodNode method_name class_name file_path]\<rparr>"

definition create_dependency :: "dependency \<Rightarrow> scanner \<Rightarrow> scanner" where
  "create_dependency d st =
     (case create_dependency_transaction d (store st) of
        (g, ws) \<Rightarrow>
          st\<lparr>store := g, calls := calls st @ [CreateDependency d], warnings := warnings st @ ws\<rparr>)"

subsection \<open>Entity extraction\<close>

text \<open>The span test \<^verbatim>\<open>e['start_byte'] <= node_byte < e['end_byte']\<close>.\<close>

definition contains :: "entity \<Rightarrow> nat \<Rightarrow> bool" where
  "contains e node_byte = (ent_start e \<le> node_byte \<and> node_byte < ent_end e)"

text \<open>The \<^verbatim>\<open>if\<close>/\<^verbatim>\<open>elif\<close> statement of \<^verbatim>\<open>_extract_entities\<close> (before the loop over the
  children). \<^verbatim>\<open>current_class\<close> is the first dict of \<^verbatim>\<open>entities['classes']\<close>, whatever its
  file, whose span holds the start of the node.\<close>

definition declare_entity :: "node \<Rightarrow> pyobj \<Rightarrow> scanner \<Rightarrow> path \<Rightarrow> scanner outcome" where
  "declare_entity n source_code st file_path =
     (if node_type n = ''class_declaration'' then
        (case get_node_text (child_by_field_name n ''name'') source_code of
           Inl err \<Rightarrow> Raised err st
         | Inr class_name \<Rightarrow>
             Done (create_class_node class_name file_path
                     (st\<lparr>classes := classes st @
                          [\<lparr>ent_name = class_name, ent_class = None, ent_file = file_path,
                            ent_start = start_byte n, ent_end = end_byte n\<rparr>]\<rparr>)))
      else if node_type n = ''method_declaration'' then
        (case get_node_text (child_by_field_name n ''name'') source_code of
           Inl err \<Rightarrow> Raised err st
         | Inr method_name \<Rightarrow>
             (case List.find (\<lambda>cls. contains cls (start_byte n)) (classes st) of
                None \<Rightarrow> Done st
              | Some current_class \<Rightarrow>
                  Done (create_method_node method_name (ent_name current_class) file_path
                          (st\<lparr>methods := methods st @
                               [\<lparr>ent_name = method_name,
                                 ent_class = Some (ent_name current_class),
                                 ent_file = file_path,
                                 ent_start = start_byte n, ent_end = end_byte n\<rparr>]\<rparr>))))
      else Done st)"

text \<open>\<^verbatim>\<open>CodeScanner._extract_entities\<close>: the node itself, then every child in order.\<close>

fun extract_entities :: "node \<Rightarrow> pyobj \<Rightarrow> scanner \<Rightarrow> path \<Rightarrow> scanner outcome"
  and extract_children :: "node list \<Rightarrow> pyobj \<Rightarrow> scanner \<Rightarrow> path \<Rightarrow> scanner outcome" where
  "extract_entities (Node fl ty s e par cs) source_code st file_path =
     (case declare_entity (Node fl ty s e par cs) source_code st file_path of
        Raised err st' \<Rightarrow> Raised err st'
      | Done st' \<Rightarrow> extract_children cs source_code st' file_path)"
| "extract_children [] source_code st file_path = Done st"
| "extract_children (child # rest) source_code st file_path =
     (case extract_entities child source_code st file_path of
        Raised err st' \<Rightarrow> Raised err st'
      | Done st' \<Rightarrow> extract_children rest source_code st' file_path)"

subsection \<open>Scope resolution\<close>

datatype entity_type = Classes | Methods

fun entities_of :: "scanner \<Rightarrow> entity_type \<Rightarrow> entity list" where
  "entities_of st Classes = classes st"
| "entities_of st Methods = methods st"

text \<open>\<^verbatim>\<open>CodeScanner._find_enclosing_entity\<close>: the first candidate of the file whose span
  holds the offset.\<close>

definition find_enclosing_entity ::
  "nat \<Rightarrow> scanner \<Rightarrow> path \<Rightarrow> entity_type \<Rightarrow> entity option" where
  "find_enclosing_entity node_byte st file_path ty =
     List.find (\<lambda>e. contains e node_byte)
       (filter (\<lambda>e. ent_file e = file_path) (entities_of st ty))"

subsection \<open>Dependency extraction\<close>

type_synonym capture = "node \<times> string"

text \<open>The inner loop of the call branches: the text of the last \<^verbatim>\<open>method\<close> capture and of
  the last \<^verbatim>\<open>object\<close> capture of the whole capture list.\<close>

fun call_names ::
  "capture list \<Rightarrow> pyobj \<Rightarrow> str option \<Rightarrow> str option \<Rightarrow> pyerror + (str option \<times> str option)" where
  "call_names [] source_code method_name object_name = Inr (method_name, object_name)"
| "call_names ((child_node, child_tag) # rest) source_code method_name object_name =
     (if child_tag = ''method'' then
        (case get_node_text (Some child_node) source_code of
           Inl err \<Rightarrow> Inl err
         | Inr t \<Rightarrow> call_names rest source_code (Some t) object_name)
      else if child_tag = ''object'' then
        (case get_node_text (Some child_node) source_code of
           Inl err \<Rightarrow> Inl err
         | Inr t \<Rightarrow> call_names rest source_code method_name (Some t))
      else call_names rest source_code method_name object_name)"

text \<open>The inner loop of the Java inheritance branch: every \<^verbatim>\<open>interface\<close> capture.\<close>

fun interface_names :: "capture list \<Rightarrow> pyobj \<Rightarrow> str list \<Rightarrow> pyerror + str list" where
  "interface_names [] source_code acc = Inr acc"
| "interface_names ((child_node, child_tag) # rest) source_code acc =
     (if child_tag = ''interface'' then
        (case get_node_text (Some child_node) source_code of
           Inl err \<Rightarrow> Inl err
         | Inr t \<Rightarrow> interface_names rest source_code (acc @ [t]))
      else interface_names rest source_code acc)"

text \<open>The inner loop of the TypeScript import branch: the first \<^verbatim>\<open>module_path\<close> capture,
  stripped of quotes (the loop breaks there).\<close>

fun first_module_path :: "capture list \<Rightarrow> pyobj \<Rightarrow> pyerror + str option" where
  "first_module_path [] source_code = Inr None"
| "first_module_path ((n, t) # rest) source_code =
     (if t = ''module_path'' then
        (case get_node_text (Some n) source_code of
           Inl err \<Rightarrow> Inl err
         | Inr module_path_str \<Rightarrow> Inr (Some (strip module_path_str quote_chars)))
      else first_module_path rest source_code)"

definition add_dependency :: "dependency \<Rightarrow> scanner \<Rightarrow> scanner" where
  "add_dependency d st = st\<lparr>dependencies := dependencies st @ [d]\<rparr>"

text \<open>The call branch; the Java and the TypeScript branch have the same statements.\<close>

definition process_call ::
  "capture list \<Rightarrow> pyobj \<Rightarrow> path \<Rightarrow> node \<Rightarrow> scanner \<Rightarrow> scanner outcome" where
  "process_call captures source_code file_path n st =
     (case call_names captures source_code None None of
        Inl err \<Rightarrow> Raised err st
      | Inr (method_name, object_name) \<Rightarrow>
          (if truthy method_name \<and> truthy object_name then
             (case (find_enclosing_entity (start_byte n) st file_path Classes,
                    find_enclosing_entity (start_byte n) st file_path Methods) of
                (Some enclosing_class, Some enclosing_method) \<Rightarrow>
                  Done (add_dependency
                          (MethodCall (ent_name enclosing_class) (ent_name enclosing_method)
                             (the object_name @ ''.'' @ the method_name) file_path) st)
              | _ \<Rightarrow> Done st)
           else Done st))"

text \<open>The body of the outer loop of \<^verbatim>\<open>CodeScanner._process_dependency\<close> for one capture.\<close>

definition process_capture ::
  "capture list \<Rightarrow> string \<Rightarrow> pyobj \<Rightarrow> path \<Rightarrow> capture \<Rightarrow> scanner \<Rightarrow> scanner outcome" where
  "process_capture captures lang source_code file_path cap st =
     (case cap of (n, tag) \<Rightarrow>
      if lang = ''java'' then
        (if tag = ''call'' then process_call captures source_code file_path n st
         else if tag = ''import_path'' then
           (case get_node_text (Some n) source_code of
              Inl err \<Rightarrow> Raised err st
            | Inr ipath \<Rightarrow> Done (add_dependency (Import file_path ipath) st))
         else if tag = ''class_name'' then
           (case get_node_text (Some n) source_code of
              Inl err \<Rightarrow> Raised err st
            | Inr class_name \<Rightarrow>
                (case interface_names captures source_code [] of
                   Inl err \<Rightarrow> Raised err st
                 | Inr ifs \<Rightarrow>
                     Done (add_dependency (Inheritance class_name file_path (Some ifs) None) st)))
         else Done st)
      else if lang = ''typescript'' then
        (if tag = ''call'' then process_call captures source_code file_path n st
         else if startswith tag ''import'' then
           (case first_module_path captures source_code of
              Inl err \<Rightarrow> Raised err st
            | Inr module_path \<Rightarrow>
                (if truthy module_path
                 then Done (add_dependency (Import file_path (the module_path)) st)
                 else Done st))
         else if tag = ''parent'' then
           (case get_node_text (Some n) source_code of
              Inl err \<Rightarrow> Raised err st
            | Inr parent_name \<Rightarrow>
                (case find_enclosing_entity (start_byte n) st file_path Classes of
                   None \<Rightarrow> Done st
                 | Some enclosing_class \<Rightarrow>
                     Done (add_dependency
                             (Inheritance (ent_name enclosing_class) file_path None
                                (Some parent_name)) st)))
         else Done st)
      else Done st)"

text \<open>The outer loop, over a suffix \<^verbatim>\<open>todo\<close> of \<^verbatim>\<open>captures\<close>.\<close>

fun process_captures ::
  "capture list \<Rightarrow> string \<Rightarrow> pyobj \<Rightarrow> path \<Rightarrow> capture list \<Rightarrow> scanner \<Rightarrow> scanner outcome" where
  "process_captures captures lang source_code file_path [] st = Done st"
| "process_captures captures lang source_code file_path (cap # todo) st =
     (case process_capture captures lang source_code file_path cap st of
        Raised err st' \<Rightarrow> Raised err st'
      | Done st' \<Rightarrow> process_captures captures lang source_code file_path todo st')"

text \<open>\<^verbatim>\<open>CodeScanner._process_dependency\<close>.\<close>

definition process_dependency ::
  "capture list \<Rightarrow> string \<Rightarrow> pyobj \<Rightarrow> scanner \<Rightarrow> path \<Rightarrow> scanner outcome" where
  "process_dependency captures lang source_code st file_path =
     process_captures captures lang source_code file_path captures st"

subsection \<open>Files and the project scan\<close>

datatype language = JAVA_LANGUAGE | TS_LANGUAGE

text \<open>The three entries of \<^verbatim>\<open>QUERIES[lang]\<close> in their order, and the query of
  \<^verbatim>\<open>get_method_source\<close>.\<close>

datatype query = Q_method_calls | Q_imports | Q_inheritance | Q_method_declaration

text \<open>What the scanner takes from outside: the directory walk (\<^verbatim>\<open>os.walk\<close>: root and file
  name of every file, in order), the content of a file (\<^verbatim>\<open>None\<close>: it cannot be opened),
  the tree-sitter parser, and the captures of a query on a tree.\<close>

record world =
  walk :: "path \<Rightarrow> (path \<times> string) list"
  read_file :: "path \<Rightarrow> bytes option"
  ts_parse :: "language \<Rightarrow> bytes \<Rightarrow> node"
  ts_captures :: "language \<Rightarrow> query \<Rightarrow> node \<Rightarrow> capture list"

definition supported_extensions :: "string \<Rightarrow> language option" where
  "supported_extensions ext =
     (if ext = ''.java'' then Some JAVA_LANGUAGE
      else if ext = ''.ts'' then Some TS_LANGUAGE
      else if ext = ''.tsx'' then Some TS_LANGUAGE
      else None)"

text \<open>\<^verbatim>\<open>splitc c s\<close>: the pieces of \<^verbatim>\<open>s\<close> between the occurrences of \<^verbatim>\<open>c\<close>.\<close>

fun splitc :: "char \<Rightarrow> string \<Rightarrow> string list" where
  "splitc c [] = [[]]"
| "splitc c (x # xs) =
     (if x = c then [] # splitc c xs
      else (case splitc c xs of [] \<Rightarrow> [[x]] | p # ps \<Rightarrow> (x # p) # ps))"

text \<open>\<^verbatim>\<open>Path(p).name\<close>: the last component, empty and \<^verbatim>\<open>.\<close> components dropped.\<close>

definition path_name :: "path \<Rightarrow> string" where
  "path_name p =
     (case rev (filter (\<lambda>c. c \<noteq> [] \<and> c \<noteq> ''.'') (splitc CHR ''/'' p)) of
        [] \<Rightarrow> []
      | c # _ \<Rightarrow> c)"

text \<open>\<^verbatim>\<open>Path(p).suffix\<close>: from the last dot of the name, when that dot is neither the first
  nor the last character.\<close>

definition path_suffix :: "path \<Rightarrow> string" where
  "path_suffix p =
     (let name = path_name p;
          after = takeWhile (\<lambda>c. c \<noteq> CHR ''.'') (rev name)
      in if CHR ''.'' \<in> set name \<and> after \<noteq> [] \<and> length after + 1 < length name
         then drop (length name - length after - 1) name
         else [])"

text \<open>\<^verbatim>\<open>os.path.join(root, file)\<close> (POSIX).\<close>

definition os_path_join :: "path \<Rightarrow> string \<Rightarrow> path" where
  "os_path_join root file =
     (if take 1 file = ''/'' then file
      else if root = [] \<or> (root \<noteq> [] \<and> last root = CHR ''/'') then root @ file
      else root @ ''/'' @ file)"

text \<open>\<^verbatim>\<open>CodeScanner._get_files\<close>.\<close>

definition get_files :: "world \<Rightarrow> path \<Rightarrow> path list" where
  "get_files w project_path =
     map (\<lambda>(root, file). os_path_join root file)
       (filter (\<lambda>(root, file). supported_extensions (path_suffix file) \<noteq> None)
          (walk w project_path))"

text \<open>The loop over \<^verbatim>\<open>queries.items()\<close>.\<close>

fun run_queries ::
  "world \<Rightarrow> language \<Rightarrow> node \<Rightarrow> string \<Rightarrow> pyobj \<Rightarrow> path \<Rightarrow> query list \<Rightarrow> scanner
     \<Rightarrow> scanner outcome" where
  "run_queries w language tree lang source_code file_path [] st = Done st"
| "run_queries w language tree lang source_code file_path (q # qs) st =
     (case process_dependency (ts_captures w language q tree) lang source_code st file_path of
        Raised err st' \<Rightarrow> Raised err st'
      | Done st' \<Rightarrow> run_queries w language tree lang source_code file_path qs st')"

text \<open>The body of the loop over the files of \<^verbatim>\<open>scan_project\<close>.\<close>

definition scan_file :: "world \<Rightarrow> path \<Rightarrow> scanner \<Rightarrow> scanner outcome" where
  "scan_file w file_path st =
     (case supported_extensions (path_suffix file_path) of
        None \<Rightarrow> Done st
      | Some language \<Rightarrow>
          (case read_file w file_path of
             None \<Rightarrow> Raised OSError st
           | Some source_code \<Rightarrow>
               (case extract_entities (ts_parse w language source_code) (PyBytes source_code)
                       st file_path of
                  Raised err st' \<Rightarrow> Raised err st'
                | Done st' \<Rightarrow>
                    run_queries w language (ts_parse w language source_code)
                      (if path_suffix file_path = ''.java'' then ''java'' else ''typescript'')
                      (PyBytes source_code) file_path
                      [Q_method_calls, Q_imports, Q_inheritance] st')))"

fun scan_files :: "world \<Rightarrow> path list \<Rightarrow> scanner \<Rightarrow> scanner outcome" where
  "scan_files w [] st = Done st"
| "scan_files w (file_path # rest) st =
     (case scan_file w file_path st of
        Raised err st' \<Rightarrow> Raised err st'
      | Done st' \<Rightarrow> scan_files w rest st')"

text \<open>A scanner at the start of \<^verbatim>\<open>scan_project\<close>: empty entity lists, the database as it
  is, nothing sent yet.\<close>

definition new_scan :: "graph \<Rightarrow> scanner" where
  "new_scan g =
     \<lparr>classes = [], methods = [], dependencies = [], store = g, calls = [], warnings = []\<rparr>"

text \<open>\<^verbatim>\<open>CodeScanner.scan_project\<close>, on the database \<^verbatim>\<open>g\<close>.\<close>

definition scan_project :: "world \<Rightarrow> graph \<Rightarrow> path \<Rightarrow> scanner outcome" where
  "scan_project w g project_path =
     (case scan_files w (get_files w project_path) (new_scan g) of
        Raised err st \<Rightarrow> Raised err st
      | Done st \<Rightarrow> Done (fold create_dependency (dependencies st) st))"

subsection \<open>Method source lookup\<close>

text \<open>The loop of \<^verbatim>\<open>get_method_source\<close> over the captures. \<^verbatim>\<open>source_code\<close> is what the
  code passes to \<^verbatim>\<open>_get_node_text\<close>, \<^verbatim>\<open>source_code_bytes\<close> what it slices.\<close>

fun find_method ::
  "capture list \<Rightarrow> pyobj \<Rightarrow> bytes \<Rightarrow> str \<Rightarrow> pyerror + str option" where
  "find_method [] source_code source_code_bytes method_name = Inr None"
| "find_method ((n, tag) # rest) source_code source_code_bytes method_name =
     (if tag = ''method_name'' then
        (case get_node_text (Some n) source_code of
           Inl err \<Rightarrow> Inl err
         | Inr current_method_name \<Rightarrow>
             (if current_method_name = method_name then
                (case parent n of
                   None \<Rightarrow> Inl AttributeError
                 | Some (start_b, end_b) \<Rightarrow>
                     (case decode_utf8 (slice source_code_bytes start_b end_b) of
                        Inl err \<Rightarrow> Inl err
                      | Inr text \<Rightarrow> Inr (Some text)))
              else find_method rest source_code source_code_bytes method_name))
      else find_method rest source_code source_code_bytes method_name)"

text \<open>The body of the \<^verbatim>\<open>try\<close> of \<^verbatim>\<open>get_method_source\<close>.\<close>

definition get_method_source_body :: "world \<Rightarrow> str \<Rightarrow> path \<Rightarrow> pyerror + str option" where
  "get_method_source_body w method_name file_path =
     (case supported_extensions (path_suffix file_path) of
        None \<Rightarrow> Inr None
      | Some language \<Rightarrow>
          (case read_file w file_path of
             None \<Rightarrow> Inl OSError
           | Some source_code_bytes \<Rightarrow>
               (case decode_utf8 source_code_bytes of
                  Inl err \<Rightarrow> Inl err
                | Inr source_code \<Rightarrow>
                    find_method
                      (ts_captures w language Q_method_declaration
                         (ts_parse w language source_code_bytes))
                      (PyStr source_code) source_code_bytes method_name)))"

text \<open>\<^verbatim>\<open>CodeScanner.get_method_source\<close>: the value returned and the exceptions logged.\<close>

definition get_method_source :: "world \<Rightarrow> str \<Rightarrow> path \<Rightarrow> str option \<times> pyerror list" where
  "get_method_source w method_name file_path =
     (case get_method_source_body w method_name file_path of
        Inl err \<Rightarrow> (None, [err])
      | Inr r \<Rightarrow> (r, []))"

section \<open>Notions used to state the properties\<close>

text \<open>A method-call dependency whose callee has a dot; other dependencies have no callee.\<close>

fun dotted :: "dependency \<Rightarrow> bool" where
  "dotted (MethodCall cc cm cal f) = (CHR ''.'' \<in> set cal)"
| "dotted (Import f p) = True"
| "dotted (Inheritance c f ifs par) = True"

text \<open>The persister calls that upsert an entity.\<close>

fun is_upsert :: "persister_call \<Rightarrow> bool" where
  "is_upsert (CreateClassNode n f) = True"
| "is_upsert (CreateMethodNode m c f) = True"
| "is_upsert (CreateDependency d) = False"

text \<open>What holds of the scanner until the last loop of \<^verbatim>\<open>scan_project\<close> starts.\<close>

definition scan_inv :: "scanner \<Rightarrow> bool" where
  "scan_inv st =
     (list_all dotted (dependencies st) \<and> list_all is_upsert (calls st) \<and> warnings st = [])"

text \<open>The effect of one persister call on the database.\<close>

fun apply_call :: "persister_call \<Rightarrow> graph \<Rightarrow> graph" where
  "apply_call (CreateClassNode n f) g = create_class_node_transaction n f g"
| "apply_call (CreateMethodNode m c f) g = create_method_node_transaction m c f g"
| "apply_call (CreateDependency d) g = fst (create_dependency_transaction d g)"

text \<open>A tree as a parser builds it: the span of a node is an interval, the children lie
  inside it, in order and without overlap.\<close>

fun wf_node :: "node \<Rightarrow> bool"
  and wf_nodes :: "nat \<Rightarrow> nat \<Rightarrow> node list \<Rightarrow> bool" where
  "wf_node (Node fl ty s e par cs) = (s \<le> e \<and> wf_nodes s e cs)"
| "wf_nodes lo hi [] = True"
| "wf_nodes lo hi (c # cs) =
     (lo \<le> start_byte c \<and> end_byte c \<le> hi \<and> wf_node c \<and> wf_nodes (end_byte c) hi cs)"

text \<open>While the traversal is at a node with span \<^verbatim>\<open>[lo, hi)\<close>: every class of the file
  emitted so far encloses the span or ends before it.\<close>

definition scope_inv :: "path \<Rightarrow> scanner \<Rightarrow> nat \<Rightarrow> nat \<Rightarrow> bool" where
  "scope_inv fp st lo hi =
     (\<forall>c \<in> set (classes st).
        ent_file c = fp \<longrightarrow> (ent_start c \<le> lo \<and> hi \<le> ent_end c) \<or> ent_end c \<le> lo)"

text \<open>Every method of the file has a resolved class: the first class whose span holds the
  start of the method. The method carries its name, and lies inside it when the class is
  of the same file.\<close>

definition owner_ok :: "path \<Rightarrow> scanner \<Rightarrow> bool" where
  "owner_ok fp st =
     (\<forall>m \<in> set (methods st).
        ent_file m = fp \<longrightarrow>
          (\<exists>c. List.find (\<lambda>c. contains c (ent_start m)) (classes st) = Some c
             \<and> ent_class m = Some (ent_name c)
             \<and> (ent_file c = fp \<longrightarrow> ent_start c \<le> ent_start m \<and> ent_end m \<le> ent_end c)))"

text \<open>Following the words of the specification (section 4.1): the entity of the file with
  the smallest span among those whose span holds the offset.\<close>

definition spec_smallest_enclosing :: "nat \<Rightarrow> entity list \<Rightarrow> path \<Rightarrow> entity option" where
  "spec_smallest_enclosing node_byte es file_path =
     (case filter (\<lambda>e. ent_file e = file_path \<and> contains e node_byte) es of
        [] \<Rightarrow> None
      | c # cs \<Rightarrow> Some (arg_min_list (\<lambda>e. ent_end e - ent_start e) (c # cs)))"

definition rels_of_type :: "string \<Rightarrow> (nat \<times> string \<times> nat) set" where
  "rels_of_type t = {r. fst (snd r) = t}"

definition empty_graph :: graph where
  "empty_graph = \<lparr>nodes = [], rels = []\<rparr>"

text \<open>Follows child indices from a node (used to name the captured nodes of an example).\<close>

fun at :: "node \<Rightarrow> nat list \<Rightarrow> node" where
  "at n [] = n"
| "at n (i # is) = at (children n ! i) is"

text \<open>Persisting the dependency adds relationships of type \<^verbatim>\<open>t\<close> only.\<close>

definition adds_only :: "string \<Rightarrow> dependency \<Rightarrow> graph \<Rightarrow> bool" where
  "adds_only t d g =
     (set (rels (fst (create_dependency_transaction d g))) \<subseteq> set (rels g) \<union> rels_of_type t)"

text \<open>What an inheritance dependency of a file of language \<^verbatim>\<open>lang\<close> is: in a Java file it
  has the interfaces only and its persisting adds \<^verbatim>\<open>IMPLEMENTS\<close> relationships only, in
  a TypeScript file it has the parent only and its persisting adds \<^verbatim>\<open>EXTENDS\<close>
  relationships only.\<close>

definition inheritance_ok :: "string \<Rightarrow> graph \<Rightarrow> dependency \<Rightarrow> bool" where
  "inheritance_ok lang g d =
     (case d of
        Inheritance c f ifs par \<Rightarrow>
          (lang = ''java'' \<and> ifs \<noteq> None \<and> par = None \<and> adds_only ''IMPLEMENTS'' d g)
          \<or> (lang = ''typescript'' \<and> ifs = None \<and> par \<noteq> None \<and> adds_only ''EXTENDS'' d g)
      | _ \<Rightarrow> True)"

text \<open>The classes emitted while a node with span \<^verbatim>\<open>[lo, hi)\<close> is visited lie inside the span.\<close>

definition grows :: "scanner \<Rightarrow> scanner \<Rightarrow> nat \<Rightarrow> nat \<Rightarrow> bool" where
  "grows st st' lo hi =
     (\<exists>new. classes st' = classes st @ new
           \<and> (\<forall>c \<in> set new. lo \<le> ent_start c \<and> ent_end c \<le> hi))"

text \<open>The property lists of the two entity patterns, and the nodes a merge creates for
  them.\<close>

definition class_pat :: "str \<Rightarrow> path \<Rightarrow> (string \<times> string) list" where
  "class_pat n f = [(''name'', n), (''file'', f)]"

definition method_pat :: "str \<Rightarrow> str \<Rightarrow> path \<Rightarrow> (string \<times> string) list" where
  "method_pat m c f = [(''name'', m), (''class'', c), (''file'', f)]"

text \<open>A persister call that leaves the database as it is.\<close>

definition no_op :: "persister_call \<Rightarrow> graph \<Rightarrow> bool" where
  "no_op c g = (apply_call c g = g)"

text \<open>The outcome with another database in the scanner.\<close>

fun with_store :: "graph \<Rightarrow> scanner outcome \<Rightarrow> scanner outcome" where
  "with_store g (Done st) = Done (st\<lparr>store := g\<rparr>)"
| "with_store g (Raised err st) = Raised err (st\<lparr>store := g\<rparr>)"

text \<open>The label and property list of every pattern an entity upsert merges.\<close>

definition entity_pats :: "(string \<times> (string \<times> string) list) set" where
  "entity_pats =
     {p. (\<exists>n f. p = (''Class'', class_pat n f)) \<or> (\<exists>m c f. p = (''Method'', method_pat m c f))}"

text \<open>The rows of the relationship merge of a method upsert.\<close>

definition method_rows :: "nat list \<Rightarrow> nat list \<Rightarrow> (nat \<times> nat) list" where
  "method_rows cs ms = concat (map (\<lambda>m. map (\<lambda>c. (c, m)) cs) ms)"

section \<open>Example files\<close>

text \<open>The scenario of the specification, as the Java file \<^verbatim>\<open>proj/A.java\<close>, with the captures of the call query and of the method query.\<close>

definition ex1_src :: bytes where
  "ex1_src = ''class A { void f() { b.g(); } } class B { void g() {} }''"

definition ex1_tree :: node where
  "ex1_tree =
     Node None ''program'' 0 55 None
       [Node None ''class_declaration'' 0 31 (Some (0, 55))
          [Node (Some ''name'') ''identifier'' 6 7 (Some (0, 31)) [],
           Node (Some ''body'') ''class_body'' 8 31 (Some (0, 31))
             [Node None ''method_declaration'' 10 29 (Some (8, 31))
                [Node (Some ''type'') ''void_type'' 10 14 (Some (10, 29)) [],
                 Node (Some ''name'') ''identifier'' 15 16 (Some (10, 29)) [],
                 Node (Some ''parameters'') ''formal_parameters'' 16 18 (Some (10, 29)) [],
                 Node (Some ''body'') ''block'' 19 29 (Some (10, 29))
                   [Node None ''expression_statement'' 21 27 (Some (19, 29))
                      [Node None ''method_invocation'' 21 26 (Some (21, 27))
                         [Node (Some ''object'') ''identifier'' 21 22 (Some (21, 26)) [],
                          Node (Some ''name'') ''identifier'' 23 24 (Some (21, 26)) [],
                          Node (Some ''arguments'') ''argument_list'' 24 26 (Some (21, 26)) []]]]]]],
        Node None ''class_declaration'' 32 55 (Some (0, 55))
          [Node (Some ''name'') ''identifier'' 38 39 (Some (32, 55)) [],
           Node (Some ''body'') ''class_body'' 40 55 (Some (32, 55))
             [Node None ''method_declaration'' 42 53 (Some (40, 55))
                [Node (Some ''type'') ''void_type'' 42 46 (Some (42, 53)) [],
                 Node (Some ''name'') ''identifier'' 47 48 (Some (42, 53)) [],
                 Node (Some ''parameters'') ''formal_parameters'' 48 50 (Some (42, 53)) [],
                 Node (Some ''body'') ''block'' 51 53 (Some (42, 53)) []]]]]"

definition ex1_calls :: "capture list" where
  "ex1_calls =
     [(at ex1_tree [0, 1, 0, 3, 0, 0], ''call''),
      (at ex1_tree [0, 1, 0, 3, 0, 0, 0], ''object''),
      (at ex1_tree [0, 1, 0, 3, 0, 0, 1], ''method'')]"

definition ex1_method_decls :: "capture list" where
  "ex1_method_decls =
     [(at ex1_tree [0, 1, 0], ''method''),
      (at ex1_tree [0, 1, 0, 1], ''method_name''),
      (at ex1_tree [1, 1, 0], ''method''),
      (at ex1_tree [1, 1, 0, 1], ''method_name'')]"

definition ex1_world :: world where
  "ex1_world =
     \<lparr>walk = (\<lambda>p. [(p, ''A.java'')]),
      read_file = (\<lambda>p. if p = ''proj/A.java'' then Some ex1_src else None),
      ts_parse = (\<lambda>l b. ex1_tree),
      ts_captures = (\<lambda>l q t. case q of
          Q_method_calls \<Rightarrow> ex1_calls
        | Q_imports \<Rightarrow> []
        | Q_inheritance \<Rightarrow> []
        | Q_method_declaration \<Rightarrow> ex1_method_decls)\<rparr>"

text \<open>The Java file \<^verbatim>\<open>proj/C.java\<close> with one class that implements two interfaces.\<close>

definition ex2_src :: bytes where
  "ex2_src = ''class C implements X, Y {}''"

definition ex2_tree :: node where
  "ex2_tree =
     Node None ''program'' 0 26 None
       [Node None ''class_declaration'' 0 26 (Some (0, 26))
          [Node (Some ''name'') ''identifier'' 6 7 (Some (0, 26)) [],
           Node (Some ''interfaces'') ''super_interfaces'' 8 23 (Some (0, 26))
             [Node None ''type_list'' 19 23 (Some (8, 23))
                [Node None ''type_identifier'' 19 20 (Some (19, 23)) [],
                 Node None ''type_identifier'' 22 23 (Some (19, 23)) []]],
           Node (Some ''body'') ''class_body'' 24 26 (Some (0, 26)) []]]"

definition ex2_inheritance :: "capture list" where
  "ex2_inheritance =
     [(at ex2_tree [0, 0], ''class_name''),
      (at ex2_tree [0, 1, 0, 0], ''interface''),
      (at ex2_tree [0, 1, 0, 1], ''interface'')]"

definition ex2_world :: world where
  "ex2_world =
     \<lparr>walk = (\<lambda>p. [(p, ''C.java'')]),
      read_file = (\<lambda>p. if p = ''proj/C.java'' then Some ex2_src else None),
      ts_parse = (\<lambda>l b. ex2_tree),
      ts_captures = (\<lambda>l q t. case q of
          Q_method_calls \<Rightarrow> []
        | Q_imports \<Rightarrow> []
        | Q_inheritance \<Rightarrow> ex2_inheritance
        | Q_method_declaration \<Rightarrow> [])\<rparr>"

text \<open>The Java file \<^verbatim>\<open>proj/N.java\<close>: a method of a class nested in a class.\<close>

definition ex3_src :: bytes where
  "ex3_src = ''class A { class B { void m() {} } }''"

definition ex3_tree :: node where
  "ex3_tree =
     Node None ''program'' 0 35 None
       [Node None ''class_declaration'' 0 35 (Some (0, 35))
          [Node (Some ''name'') ''identifier'' 6 7 (Some (0, 35)) [],
           Node (Some ''body'') ''class_body'' 8 35 (Some (0, 35))
             [Node None ''class_declaration'' 10 33 (Some (8, 35))
                [Node (Some ''name'') ''identifier'' 16 17 (Some (10, 33)) [],
                 Node (Some ''body'') ''class_body'' 18 33 (Some (10, 33))
                   [Node None ''method_declaration'' 20 31 (Some (18, 33))
                      [Node (Some ''type'') ''void_type'' 20 24 (Some (20, 31)) [],
                       Node (Some ''name'') ''identifier'' 25 26 (Some (20, 31)) [],
                       Node (Some ''parameters'') ''formal_parameters'' 26 28 (Some (20, 31)) [],
                       Node (Some ''body'') ''block'' 29 31 (Some (20, 31)) []]]]]]]"

definition ex3_world :: world where
  "ex3_world =
     \<lparr>walk = (\<lambda>p. [(p, ''N.java'')]),
      read_file = (\<lambda>p. if p = ''proj/N.java'' then Some ex3_src else None),
      ts_parse = (\<lambda>l b. ex3_tree),
      ts_captures = (\<lambda>l q t. case q of
          Q_method_calls \<Rightarrow> []
        | Q_imports \<Rightarrow> []
        | Q_inheritance \<Rightarrow> []
        | Q_method_declaration \<Rightarrow> [])\<rparr>"





text \<open>The TypeScript file \<^verbatim>\<open>proj/i.ts\<close> with two default imports.\<close>

definition ex5_src :: bytes where
  "ex5_src = ''import a from '' @ [CHR 0x22] @ ''./x'' @ [CHR 0x22] @ '';'' @ [CHR 0x0A] @ ''import b from '' @ [CHR 0x22] @ ''./y'' @ [CHR 0x22] @ '';'' @ [CHR 0x0A]"

definition ex5_tree :: node where
  "ex5_tree =
     Node None ''program'' 0 42 None
       [Node None ''import_statement'' 0 20 (Some (0, 42))
          [Node None ''import_clause'' 7 8 (Some (0, 20))
             [Node None ''identifier'' 7 8 (Some (7, 8)) []],
           Node (Some ''source'') ''string'' 14 19 (Some (0, 20)) []],
        Node None ''import_statement'' 21 41 (Some (0, 42))
          [Node None ''import_clause'' 28 29 (Some (21, 41))
             [Node None ''identifier'' 28 29 (Some (28, 29)) []],
           Node (Some ''source'') ''string'' 35 40 (Some (21, 41)) []]]"

definition ex5_imports :: "capture list" where
  "ex5_imports =
     [(at ex5_tree [0, 0, 0], ''import_default''),
      (at ex5_tree [0, 1], ''module_path''),
      (at ex5_tree [1, 0, 0], ''import_default''),
      (at ex5_tree [1, 1], ''module_path'')]"

definition ex5_world :: world where
  "ex5_world =
     \<lparr>walk = (\<lambda>p. [(p, ''i.ts'')]),
      read_file = (\<lambda>p. if p = ''proj/i.ts'' then Some ex5_src else None),
      ts_parse = (\<lambda>l b. ex5_tree),
      ts_captures = (\<lambda>l q t. case q of
          Q_method_calls \<Rightarrow> []
        | Q_imports \<Rightarrow> ex5_imports
        | Q_inheritance \<Rightarrow> []
        | Q_method_declaration \<Rightarrow> [])\<rparr>"

text \<open>A project of two Java files: the first example as \<^verbatim>\<open>proj/A.java\<close>, and
  \<^verbatim>\<open>proj/Z.java\<close> with an interface, which is no class declaration.\<close>

definition ex6_src :: bytes where
  "ex6_src = ''interface I { void h(); }''"

definition ex6_tree :: node where
  "ex6_tree =
     Node None ''program'' 0 25 None
       [Node None ''interface_declaration'' 0 25 (Some (0, 25))
          [Node (Some ''name'') ''identifier'' 10 11 (Some (0, 25)) [],
           Node (Some ''body'') ''interface_body'' 12 25 (Some (0, 25))
             [Node None ''method_declaration'' 14 23 (Some (12, 25))
                [Node (Some ''type'') ''void_type'' 14 18 (Some (14, 23)) [],
                 Node (Some ''name'') ''identifier'' 19 20 (Some (14, 23)) [],
                 Node (Some ''parameters'') ''formal_parameters'' 20 22 (Some (14, 23)) []]]]]"

definition ex6_world :: world where
  "ex6_world =
     \<lparr>walk = (\<lambda>p. [(p, ''A.java''), (p, ''Z.java'')]),
      read_file = (\<lambda>p. if p = ''proj/A.java'' then Some ex1_src
                        else if p = ''proj/Z.java'' then Some ex6_src else None),
      ts_parse = (\<lambda>l b. if b = ex1_src then ex1_tree else ex6_tree),
      ts_captures = (\<lambda>l q t. if t = ex1_tree then ts_captures ex1_world l q t else [])\<rparr>"

text \<open>The Java file \<^verbatim>\<open>proj/D.java\<close>: a class \<^verbatim>\<open>A\<close> with a method, and a second class \<^verbatim>\<open>A\<close> nested in a class \<^verbatim>\<open>B\<close>.\<close>

definition ex7_src :: bytes where
  "ex7_src = ''class A { void m() {} } class B { class A {} }''"

definition ex7_tree :: node where
  "ex7_tree =
     Node None ''program'' 0 46 None
       [Node None ''class_declaration'' 0 23 (Some (0, 46))
          [Node (Some ''name'') ''identifier'' 6 7 (Some (0, 23)) [],
           Node (Some ''body'') ''class_body'' 8 23 (Some (0, 23))
             [Node None ''method_declaration'' 10 21 (Some (8, 23))
                [Node (Some ''type'') ''void_type'' 10 14 (Some (10, 21)) [],
                 Node (Some ''name'') ''identifier'' 15 16 (Some (10, 21)) [],
                 Node (Some ''parameters'') ''formal_parameters'' 16 18 (Some (10, 21)) [],
                 Node (Some ''body'') ''block'' 19 21 (Some (10, 21)) []]]],
        Node None ''class_declaration'' 24 46 (Some (0, 46))
          [Node (Some ''name'') ''identifier'' 30 31 (Some (24, 46)) [],
           Node (Some ''body'') ''class_body'' 32 46 (Some (24, 46))
             [Node None ''class_declaration'' 34 44 (Some (32, 46))
                [Node (Some ''name'') ''identifier'' 40 41 (Some (34, 44)) [],
                 Node (Some ''body'') ''class_body'' 42 44 (Some (34, 44)) []]]]]"

definition ex7_world :: world where
  "ex7_world =
     \<lparr>walk = (\<lambda>p. [(p, ''D.java'')]),
      read_file = (\<lambda>p. if p = ''proj/D.java'' then Some ex7_src else None),
      ts_parse = (\<lambda>l b. ex7_tree),
      ts_captures = (\<lambda>l q t. case q of
          Q_method_calls \<Rightarrow> []
        | Q_imports \<Rightarrow> []
        | Q_inheritance \<Rightarrow> []
        | Q_method_declaration \<Rightarrow> [])\<rparr>"

text \<open>A project of two Java files: the first example as \<^verbatim>\<open>proj/A.java\<close>, and
  \<^verbatim>\<open>proj/Z.java\<close> with an interface and a class \<^verbatim>\<open>A\<close> of its own.\<close>

definition ex8_src :: bytes where
  "ex8_src = ''interface I { void h(); } class A {}''"

definition ex8_tree :: node where
  "ex8_tree =
     Node None ''program'' 0 36 None
       [Node None ''interface_declaration'' 0 25 (Some (0, 36))
          [Node (Some ''name'') ''identifier'' 10 11 (Some (0, 25)) [],
           Node (Some ''body'') ''interface_body'' 12 25 (Some (0, 25))
             [Node None ''method_declaration'' 14 23 (Some (12, 25))
                [Node (Some ''type'') ''void_type'' 14 18 (Some (14, 23)) [],
                 Node (Some ''name'') ''identifier'' 19 20 (Some (14, 23)) [],
                 Node (Some ''parameters'') ''formal_parameters'' 20 22 (Some (14, 23)) []]]],
        Node None ''class_declaration'' 26 36 (Some (0, 36))
          [Node (Some ''name'') ''identifier'' 32 33 (Some (26, 36)) [],
           Node (Some ''body'') ''class_body'' 34 36 (Some (26, 36)) []]]"

definition ex8_world :: world where
  "ex8_world =
     \<lparr>walk = (\<lambda>p. [(p, ''A.java''), (p, ''Z.java'')]),
      read_file = (\<lambda>p. if p = ''proj/A.java'' then Some ex1_src
                        else if p = ''proj/Z.java'' then Some ex8_src else None),
      ts_parse = (\<lambda>l b. if b = ex1_src then ex1_tree else ex8_tree),
      ts_captures = (\<lambda>l q t. if t = ex1_tree then ts_captures ex1_world l q t else [])\<rparr>"

text \<open>A project of two files: the first example as \<^verbatim>\<open>proj/A.java\<close>, and the TypeScript
  module \<^verbatim>\<open>proj/m.ts\<close> with the call \<^verbatim>\<open>app.listen()\<close> at module scope, at offset 13.\<close>

definition ex9_src :: bytes where
  "ex9_src = ''let a = 1;'' @ [CHR 0x0A] @ ''  app.listen();'' @ [CHR 0x0A]"

definition ex9_tree :: node where
  "ex9_tree =
     Node None ''program'' 0 27 None
       [Node None ''lexical_declaration'' 0 10 (Some (0, 27))
          [Node None ''variable_declarator'' 4 9 (Some (0, 10))
             [Node (Some ''name'') ''identifier'' 4 5 (Some (4, 9)) [],
              Node (Some ''value'') ''number'' 8 9 (Some (4, 9)) []]],
        Node None ''expression_statement'' 13 26 (Some (0, 27))
          [Node None ''call_expression'' 13 25 (Some (13, 26))
             [Node (Some ''function'') ''member_expression'' 13 23 (Some (13, 25))
                [Node (Some ''object'') ''identifier'' 13 16 (Some (13, 23)) [],
                 Node (Some ''property'') ''property_identifier'' 17 23 (Some (13, 23)) []],
              Node (Some ''arguments'') ''arguments'' 23 25 (Some (13, 25)) []]]]"

definition ex9_calls :: "capture list" where
  "ex9_calls =
     [(at ex9_tree [1, 0], ''call''),
      (at ex9_tree [1, 0, 0, 0], ''object''),
      (at ex9_tree [1, 0, 0, 1], ''method'')]"

definition ex9_world :: world where
  "ex9_world =
     \<lparr>walk = (\<lambda>p. [(p, ''A.java''), (p, ''m.ts'')]),
      read_file = (\<lambda>p. if p = ''proj/A.java'' then Some ex1_src
                        else if p = ''proj/m.ts'' then Some ex9_src else None),
      ts_parse = (\<lambda>l b. if b = ex1_src then ex1_tree else ex9_tree),
      ts_captures = (\<lambda>l q t. if t = ex1_tree then ts_captures ex1_world l q t
                              else (case q of Q_method_calls \<Rightarrow> ex9_calls | _ \<Rightarrow> []))\<rparr>"

text \<open>The TypeScript file \<^verbatim>\<open>proj/d.ts\<close>: one class with a parent.\<close>

definition ex10_src :: bytes where
  "ex10_src = ''class D extends P {}''"

definition ex10_tree :: node where
  "ex10_tree =
     Node None ''program'' 0 20 None
       [Node None ''class_declaration'' 0 20 (Some (0, 20))
          [Node (Some ''name'') ''type_identifier'' 6 7 (Some (0, 20)) [],
           Node None ''class_heritage'' 8 17 (Some (0, 20))
             [Node None ''extends_clause'' 8 17 (Some (8, 17))
                [Node (Some ''value'') ''identifier'' 16 17 (Some (8, 17)) []]],
           Node (Some ''body'') ''class_body'' 18 20 (Some (0, 20)) []]]"

definition ex10_inheritance :: "capture list" where
  "ex10_inheritance =
     [(at ex10_tree [0, 1, 0, 0], ''parent'')]"

definition ex10_world :: world where
  "ex10_world =
     \<lparr>walk = (\<lambda>p. [(p, ''d.ts'')]),
      read_file = (\<lambda>p. if p = ''proj/d.ts'' then Some ex10_src else None),
      ts_parse = (\<lambda>l b. ex10_tree),
      ts_captures = (\<lambda>l q t. case q of
          Q_method_calls \<Rightarrow> []
        | Q_imports \<Rightarrow> []
        | Q_inheritance \<Rightarrow> ex10_inheritance
        | Q_method_declaration \<Rightarrow> [])\<rparr>"

text \<open>The TypeScript file \<^verbatim>\<open>proj/o.ts\<close>: a class \<^verbatim>\<open>O\<close> with parent \<^verbatim>\<open>P\<close>, and in one of its methods a class \<^verbatim>\<open>I\<close> with parent \<^verbatim>\<open>Q\<close>.\<close>

definition ex11_src :: bytes where
  "ex11_src = ''class O extends P { m() { class I extends Q {} } }''"

definition ex11_tree :: node where
  "ex11_tree =
     Node None ''program'' 0 50 None
       [Node None ''class_declaration'' 0 50 (Some (0, 50))
          [Node (Some ''name'') ''type_identifier'' 6 7 (Some (0, 50)) [],
           Node None ''class_heritage'' 8 17 (Some (0, 50))
             [Node None ''extends_clause'' 8 17 (Some (8, 17))
                [Node (Some ''value'') ''identifier'' 16 17 (Some (8, 17)) []]],
           Node (Some ''body'') ''class_body'' 18 50 (Some (0, 50))
             [Node None ''method_definition'' 20 48 (Some (18, 50))
                [Node (Some ''name'') ''property_identifier'' 20 21 (Some (20, 48)) [],
                 Node (Some ''parameters'') ''formal_parameters'' 21 23 (Some (20, 48)) [],
                 Node (Some ''body'') ''statement_block'' 24 48 (Some (20, 48))
                   [Node None ''class_declaration'' 26 46 (Some (24, 48))
                      [Node (Some ''name'') ''type_identifier'' 32 33 (Some (26, 46)) [],
                       Node None ''class_heritage'' 34 43 (Some (26, 46))
                         [Node None ''extends_clause'' 34 43 (Some (34, 43))
                            [Node (Some ''value'') ''identifier'' 42 43 (Some (34, 43)) []]],
                       Node (Some ''body'') ''class_body'' 44 46 (Some (26, 46)) []]]]]]]"

definition ex11_inheritance :: "capture list" where
  "ex11_inheritance =
     [(at ex11_tree [0, 1, 0, 0], ''parent''),
      (at ex11_tree [0, 2, 0, 2, 0, 1, 0, 0], ''parent'')]"

definition ex11_world :: world where
  "ex11_world =
     \<lparr>walk = (\<lambda>p. [(p, ''o.ts'')]),
      read_file = (\<lambda>p. if p = ''proj/o.ts'' then Some ex11_src else None),
      ts_parse = (\<lambda>l b. ex11_tree),
      ts_captures = (\<lambda>l q t. case q of
          Q_method_calls \<Rightarrow> []
        | Q_imports \<Rightarrow> []
        | Q_inheritance \<Rightarrow> ex11_inheritance
        | Q_method_declaration \<Rightarrow> [])\<rparr>"

text \<open>The scanner after entity extraction on the first example, from an empty scan.\<close>

definition ex1_state :: scanner where
  "ex1_state =
     state_of (extract_entities ex1_tree (PyBytes ex1_src) (new_scan empty_graph) ''proj/A.java'')"

text \<open>A call node between the two classes of the first example, outside every span.\<close>

definition ex1_stray_call :: node where
  "ex1_stray_call = Node None ''method_invocation'' 31 32 (Some (0, 55)) []"

text \<open>The second example when the query reports the class name once per matched
  interface.\<close>

definition ex2_inheritance_twice :: "capture list" where
  "ex2_inheritance_twice =
     [(at ex2_tree [0, 0], ''class_name''),
      (at ex2_tree [0, 1, 0, 0], ''interface''),
      (at ex2_tree [0, 0], ''class_name''),
      (at ex2_tree [0, 1, 0, 1], ''interface'')]"

definition ex2_world_twice :: world where
  "ex2_world_twice =
     ex2_world\<lparr>ts_captures := (\<lambda>l q t. case q of
          Q_method_calls \<Rightarrow> []
        | Q_imports \<Rightarrow> []
        | Q_inheritance \<Rightarrow> ex2_inheritance_twice
        | Q_method_declaration \<Rightarrow> [])\<rparr>"

text \<open>The store after the scan of the second example: the class and its two interfaces.\<close>

definition ex2_store :: graph where
  "ex2_store =
     \<lparr>nodes = [\<lparr>label = ''Class'', props = [(''name'', ''C''), (''file'', ''proj/C.java'')]\<rparr>,
               \<lparr>label = ''Interface'', props = [(''name'', ''X'')]\<rparr>,
               \<lparr>label = ''Interface'', props = [(''name'', ''Y'')]\<rparr>],
      rels = [(0, ''IMPLEMENTS'', 1), (0, ''IMPLEMENTS'', 2)]\<rparr>"

text \<open>A store that holds the class of the second example and nothing else.\<close>

definition ex2_class_only :: graph where
  "ex2_class_only =
     \<lparr>nodes = [\<lparr>label = ''Class'', props = [(''name'', ''C''), (''file'', ''proj/C.java'')]\<rparr>],
      rels = []\<rparr>"

text \<open>The scanner when the scan of the project with the TypeScript module reaches the
  module: the first file is done.\<close>

definition ex9_state :: scanner where
  "ex9_state = state_of (scan_file ex9_world ''proj/A.java'' (new_scan empty_graph))"

text \<open>A store that holds the class of the tenth example and nothing else.\<close>

definition ex10_class_only :: graph where
  "ex10_class_only =
     \<lparr>nodes = [\<lparr>label = ''Class'', props = [(''name'', ''D''), (''file'', ''proj/d.ts'')]\<rparr>],
      rels = []\<rparr>"

text \<open>The scanner after the scan of the file of the second example, from an empty scan.\<close>

definition ex2_state :: scanner where
  "ex2_state = state_of (scan_file ex2_world ''proj/C.java'' (new_scan empty_graph))"

section \<open>Invariants of the scan\<close>

lemma find_enclosing_none:
  "\<forall>e \<in> set (entities_of st ty). ent_file e = fp \<longrightarrow> \<not> contains e b \<Longrightarrow>
     find_enclosing_entity b st fp ty = None"
  by (auto simp: find_enclosing_entity_def find_None_iff)

text \<open>
  Claim C6. A \<^verbatim>\<open>call\<close> capture of a file whose start offset lies in the span of no
  extracted method of that file, or in the span of no extracted class of that file, adds no
  dependency: the scanner is left as it was, whether the step completes or an exception
  propagates. The entities of other files do not count, whatever their spans.
\<close>

theorem call_outside_scope_dropped:
  assumes "(\<forall>m \<in> set (methods st). ent_file m = file_path \<longrightarrow> \<not> contains m (start_byte n))
         \<or> (\<forall>c \<in> set (classes st). ent_file c = file_path \<longrightarrow> \<not> contains c (start_byte n))"
  shows "state_of (process_capture captures lang source_code file_path (n, ''call'') st) = st"
proof -
  have "find_enclosing_entity (start_byte n) st file_path Methods = None
      \<or> find_enclosing_entity (start_byte n) st file_path Classes = None"
    using assms find_enclosing_none[of st Methods file_path "start_byte n"]
      find_enclosing_none[of st Classes file_path "start_byte n"] by auto
  then have "state_of (process_call captures source_code file_path n st) = st"
    by (auto simp: process_call_def split: sum.splits option.splits prod.splits)
  then show ?thesis
    by (simp add: process_capture_def)
qed

lemma declare_entity_inv: "scan_inv st \<Longrightarrow> scan_inv (state_of (declare_entity n src st fp))"
  by (auto simp: declare_entity_def scan_inv_def create_class_node_def create_method_node_def
      split: sum.splits option.splits)

lemma extract_inv:
  "scan_inv st \<Longrightarrow> scan_inv (state_of (extract_entities n src st fp))"
  "scan_inv st \<Longrightarrow> scan_inv (state_of (extract_children ns src st fp))"
proof (induction n src st fp and ns src st fp rule: extract_entities_extract_children.induct)
  case (1 fl ty s e par cs source_code st file_path)
  then show ?case
    using declare_entity_inv[of st "Node fl ty s e par cs" source_code file_path]
    by (auto split: outcome.splits)
next
  case (2 source_code st file_path)
  then show ?case by simp
next
  case (3 child rest source_code st file_path)
  then show ?case by (auto split: outcome.splits)
qed



lemma add_dependency_inv: "scan_inv st \<Longrightarrow> dotted d \<Longrightarrow> scan_inv (add_dependency d st)"
  by (simp add: scan_inv_def add_dependency_def)

lemma process_call_inv: "scan_inv st \<Longrightarrow> scan_inv (state_of (process_call caps src fp n st))"
  by (simp add: process_call_def add_dependency_inv
      split: sum.split option.split prod.split)

lemma process_capture_inv:
  "scan_inv st \<Longrightarrow> scan_inv (state_of (process_capture caps lang src fp cap st))"
  by (cases cap)
     (simp add: process_capture_def add_dependency_inv process_call_inv
      split: sum.split option.split)

lemma process_captures_inv:
  "scan_inv st \<Longrightarrow> scan_inv (state_of (process_captures caps lang src fp todo st))"
proof (induction todo arbitrary: st)
  case Nil
  then show ?case by simp
next
  case (Cons cap todo)
  show ?case
  proof (cases "process_capture caps lang src fp cap st")
    case (Done st')
    then have "scan_inv st'" using process_capture_inv[OF Cons.prems, of caps lang src fp cap] by simp
    then show ?thesis using Done Cons.IH by simp
  next
    case (Raised e st')
    then show ?thesis using process_capture_inv[OF Cons.prems, of caps lang src fp cap] by simp
  qed
qed


lemma run_queries_inv:
  "scan_inv st \<Longrightarrow> scan_inv (state_of (run_queries w l t lang src fp qs st))"
proof (induction qs arbitrary: st)
  case Nil
  then show ?case by simp
next
  case (Cons q qs)
  have step: "scan_inv (state_of (process_dependency (ts_captures w l q t) lang src st fp))"
    unfolding process_dependency_def using Cons.prems by (rule process_captures_inv)
  show ?case
  proof (cases "process_dependency (ts_captures w l q t) lang src st fp")
    case (Done st')
    then show ?thesis using step Cons.IH by simp
  next
    case (Raised e st')
    then show ?thesis using step by simp
  qed
qed

lemma scan_file_inv: "scan_inv st \<Longrightarrow> scan_inv (state_of (scan_file w fp st))"
proof (cases "supported_extensions (path_suffix fp)")
  case None
  assume "scan_inv st"
  then show ?thesis using None by (simp add: scan_file_def)
next
  case (Some l)
  assume inv: "scan_inv st"
  show ?thesis
  proof (cases "read_file w fp")
    case None
    then show ?thesis using Some inv by (simp add: scan_file_def)
  next
    case (Some b)
    have ex: "scan_inv (state_of (extract_entities (ts_parse w l b) (PyBytes b) st fp))"
      using inv by (rule extract_inv(1))
    show ?thesis
    proof (cases "extract_entities (ts_parse w l b) (PyBytes b) st fp")
      case (Done st')
      then show ?thesis using ex Some \<open>supported_extensions (path_suffix fp) = Some l\<close>
        by (simp add: scan_file_def run_queries_inv del: run_queries.simps)
    next
      case (Raised e st')
      then show ?thesis using ex Some \<open>supported_extensions (path_suffix fp) = Some l\<close>
        by (simp add: scan_file_def)
    qed
  qed
qed

lemma scan_files_inv: "scan_inv st \<Longrightarrow> scan_inv (state_of (scan_files w fs st))"
proof (induction fs arbitrary: st)
  case Nil
  then show ?case by simp
next
  case (Cons f fs)
  have step: "scan_inv (state_of (scan_file w f st))"
    using Cons.prems by (rule scan_file_inv)
  show ?case
  proof (cases "scan_file w f st")
    case (Done st')
    then show ?thesis using step Cons.IH by simp
  next
    case (Raised e st')
    then show ?thesis using step by simp
  qed
qed

lemma new_scan_inv: "scan_inv (new_scan g)"
  by (simp add: scan_inv_def new_scan_def)

lemma create_dependency_fields:
  "dependencies (create_dependency d st) = dependencies st"
  "calls (create_dependency d st) = calls st @ [CreateDependency d]"
  by (simp_all add: create_dependency_def split: prod.split)

lemma create_dependency_warnings:
  "dotted d \<Longrightarrow> warnings (create_dependency d st) = warnings st"
proof (cases d)
  case (MethodCall cc cm cal f)
  assume "dotted d"
  then show ?thesis using MethodCall
    by (simp add: create_dependency_def split_callee_def)
next
  case (Import f p)
  then show ?thesis by (simp add: create_dependency_def)
next
  case (Inheritance c f ifs par)
  then show ?thesis
    by (cases ifs; cases par) (simp_all add: create_dependency_def)
qed

lemma fold_create_dependency:
  "list_all dotted ds \<Longrightarrow>
     warnings (fold create_dependency ds st) = warnings st
     \<and> dependencies (fold create_dependency ds st) = dependencies st
     \<and> calls (fold create_dependency ds st) = calls st @ map CreateDependency ds"
proof (induction ds arbitrary: st)
  case Nil
  then show ?case by simp
next
  case (Cons d ds)
  then show ?case
    by (simp add: create_dependency_fields create_dependency_warnings)
qed

text \<open>
  Claim C8. The calls that \<^verbatim>\<open>scan_project\<close> sends to the persister are the entity upserts
  of all files followed by one \<^verbatim>\<open>create_dependency\<close> per collected dependency: no
  dependency is created before the last upsert. A scan that an exception ends has sent
  upserts only.
\<close>

theorem edges_after_all_upserts:
  "case scan_project w g project_path of
     Done st \<Rightarrow> (\<exists>us. calls st = us @ map CreateDependency (dependencies st)
                      \<and> list_all is_upsert us)
   | Raised err st \<Rightarrow> list_all is_upsert (calls st)"
proof -
  have inv: "scan_inv (state_of (scan_files w (get_files w project_path) (new_scan g)))"
    using new_scan_inv by (rule scan_files_inv)
  show ?thesis
  proof (cases "scan_files w (get_files w project_path) (new_scan g)")
    case (Done st)
    then have "scan_inv st" using inv by simp
    then show ?thesis using Done fold_create_dependency[of "dependencies st" st]
      by (simp add: scan_project_def scan_inv_def)
  next
    case (Raised e st)
    then show ?thesis using inv by (simp add: scan_project_def scan_inv_def)
  qed
qed

text \<open>
  Claim C10. After \<^verbatim>\<open>scan_project\<close> every method-call dependency has a callee with a dot,
  the split of the persister succeeds on it, and the persister has logged no
  malformed-callee warning.
\<close>

theorem callee_always_splits:
  "warnings (state_of (scan_project w g project_path)) = []
   \<and> (\<forall>d \<in> set (dependencies (state_of (scan_project w g project_path))).
         \<forall>cc cm cal f. d = MethodCall cc cm cal f \<longrightarrow>
           CHR ''.'' \<in> set cal \<and> split_callee cal \<noteq> None)"
proof -
  have inv: "scan_inv (state_of (scan_files w (get_files w project_path) (new_scan g)))"
    using new_scan_inv by (rule scan_files_inv)
  have dot: "dotted d \<Longrightarrow> d = MethodCall cc cm cal f \<Longrightarrow>
      CHR ''.'' \<in> set cal \<and> split_callee cal \<noteq> None" for d cc cm cal f
    by (simp add: split_callee_def)
  have fin: "warnings (state_of (scan_project w g project_path)) = []
      \<and> list_all dotted (dependencies (state_of (scan_project w g project_path)))"
  proof (cases "scan_files w (get_files w project_path) (new_scan g)")
    case (Done st)
    then have "scan_inv st" using inv by simp
    then show ?thesis using Done fold_create_dependency[of "dependencies st" st]
      by (simp add: scan_project_def scan_inv_def)
  next
    case (Raised e st)
    then show ?thesis using inv by (simp add: scan_project_def scan_inv_def)
  qed
  then show ?thesis
    using dot unfolding list_all_iff by blast
qed

lemma ex1_state_value:
  "classes ex1_state =
     [\<lparr>ent_name = ''A'', ent_class = None, ent_file = ''proj/A.java'', ent_start = 0, ent_end = 31\<rparr>,
      \<lparr>ent_name = ''B'', ent_class = None, ent_file = ''proj/A.java'', ent_start = 32, ent_end = 55\<rparr>]"
  "methods ex1_state =
     [\<lparr>ent_name = ''f'', ent_class = Some ''A'', ent_file = ''proj/A.java'', ent_start = 10, ent_end = 29\<rparr>,
      \<lparr>ent_name = ''g'', ent_class = Some ''B'', ent_file = ''proj/A.java'', ent_start = 42, ent_end = 53\<rparr>]"
  by code_simp+

lemma ex9_state_value:
  "classes ex9_state =
     [\<lparr>ent_name = ''A'', ent_class = None, ent_file = ''proj/A.java'', ent_start = 0, ent_end = 31\<rparr>,
      \<lparr>ent_name = ''B'', ent_class = None, ent_file = ''proj/A.java'', ent_start = 32, ent_end = 55\<rparr>]"
  "methods ex9_state =
     [\<lparr>ent_name = ''f'', ent_class = Some ''A'', ent_file = ''proj/A.java'', ent_start = 10, ent_end = 29\<rparr>,
      \<lparr>ent_name = ''g'', ent_class = Some ''B'', ent_file = ''proj/A.java'', ent_start = 42, ent_end = 53\<rparr>]"
  by code_simp+

theorem call_outside_scope_dropped_witness:
  "state_of (process_capture ex9_calls ''typescript'' (PyBytes ex9_src) ''proj/m.ts''
       (at ex9_tree [1, 0], ''call'') ex9_state) = ex9_state
   \<and> start_byte (at ex9_tree [1, 0]) = 13
   \<and> list_ex (\<lambda>m. contains m 13) (methods ex9_state)
   \<and> list_ex (\<lambda>c. contains c 13) (classes ex9_state)
   \<and> call_names ex9_calls (PyBytes ex9_src) None None = Inr (Some ''listen'', Some ''app'')
   \<and> dependencies (state_of (scan_project ex9_world empty_graph ''proj'')) =
       [MethodCall ''A'' ''f'' ''b.g'' ''proj/A.java'']
   \<and> state_of (process_capture ex1_calls ''java'' (PyBytes ex1_src) ''proj/A.java''
       (ex1_stray_call, ''call'') ex1_state) = ex1_state
   \<and> call_names ex1_calls (PyBytes ex1_src) None None = Inr (Some ''g'', Some ''b'')"
proof -
  have h: "(\<forall>m \<in> set (methods ex9_state).
              ent_file m = ''proj/m.ts'' \<longrightarrow> \<not> contains m (start_byte (at ex9_tree [1, 0])))
         \<or> (\<forall>c \<in> set (classes ex9_state).
              ent_file c = ''proj/m.ts'' \<longrightarrow> \<not> contains c (start_byte (at ex9_tree [1, 0])))"
    by code_simp
  have c1: "state_of (process_capture ex9_calls ''typescript'' (PyBytes ex9_src) ''proj/m.ts''
       (at ex9_tree [1, 0], ''call'') ex9_state) = ex9_state"
    by (rule call_outside_scope_dropped[OF h])
  have c2: "start_byte (at ex9_tree [1, 0]) = 13"
    by code_simp
  have c3: "list_ex (\<lambda>m. contains m 13) (methods ex9_state)"
    by code_simp
  have c4: "list_ex (\<lambda>c. contains c 13) (classes ex9_state)"
    by code_simp
  have c5: "call_names ex9_calls (PyBytes ex9_src) None None = Inr (Some ''listen'', Some ''app'')"
    by code_simp
  have c6: "dependencies (state_of (scan_project ex9_world empty_graph ''proj'')) =
       [MethodCall ''A'' ''f'' ''b.g'' ''proj/A.java'']"
    by code_simp
  have h1: "(\<forall>m \<in> set (methods ex1_state).
              ent_file m = ''proj/A.java'' \<longrightarrow> \<not> contains m (start_byte ex1_stray_call))
         \<or> (\<forall>c \<in> set (classes ex1_state).
              ent_file c = ''proj/A.java'' \<longrightarrow> \<not> contains c (start_byte ex1_stray_call))"
    by code_simp
  have c7: "state_of (process_capture ex1_calls ''java'' (PyBytes ex1_src) ''proj/A.java''
       (ex1_stray_call, ''call'') ex1_state) = ex1_state"
    by (rule call_outside_scope_dropped[OF h1])
  have c8: "call_names ex1_calls (PyBytes ex1_src) None None = Inr (Some ''g'', Some ''b'')"
    by code_simp
  show ?thesis using c1 c2 c3 c4 c5 c6 c7 c8 by blast
qed

theorem edges_after_all_upserts_witness:
  "calls (state_of (scan_project ex1_world empty_graph ''proj'')) =
     [CreateClassNode ''A'' ''proj/A.java'',
      CreateMethodNode ''f'' ''A'' ''proj/A.java'',
      CreateClassNode ''B'' ''proj/A.java'',
      CreateMethodNode ''g'' ''B'' ''proj/A.java'',
      CreateDependency (MethodCall ''A'' ''f'' ''b.g'' ''proj/A.java'')]
   \<and> (case scan_project ex1_world empty_graph ''proj'' of
         Done st \<Rightarrow> (\<exists>us. calls st = us @ map CreateDependency (dependencies st)
                          \<and> list_all is_upsert us)
       | Raised err st \<Rightarrow> list_all is_upsert (calls st))"
proof -
  have c1: "calls (state_of (scan_project ex1_world empty_graph ''proj'')) =
     [CreateClassNode ''A'' ''proj/A.java'',
      CreateMethodNode ''f'' ''A'' ''proj/A.java'',
      CreateClassNode ''B'' ''proj/A.java'',
      CreateMethodNode ''g'' ''B'' ''proj/A.java'',
      CreateDependency (MethodCall ''A'' ''f'' ''b.g'' ''proj/A.java'')]"
    by code_simp
  show ?thesis
    using c1 edges_after_all_upserts[of ex1_world empty_graph "''proj''"] by blast
qed

theorem callee_always_splits_witness:
  "warnings (state_of (scan_project ex1_world empty_graph ''proj'')) = []
   \<and> dependencies (state_of (scan_project ex1_world empty_graph ''proj'')) =
       [MethodCall ''A'' ''f'' ''b.g'' ''proj/A.java'']
   \<and> split_callee ''b.g'' = Some (''b'', ''g'')"
proof -
  have c1: "warnings (state_of (scan_project ex1_world empty_graph ''proj'')) = []"
    using callee_always_splits[of ex1_world empty_graph "''proj''"] by blast
  have c2: "dependencies (state_of (scan_project ex1_world empty_graph ''proj'')) =
       [MethodCall ''A'' ''f'' ''b.g'' ''proj/A.java'']"
    by code_simp
  have c3: "split_callee ''b.g'' = Some (''b'', ''g'')"
    by code_simp
  show ?thesis using c1 c2 c3 by blast
qed

section \<open>Method source lookup\<close>

lemma find_method_str:
  "find_method caps (PyStr s) b m = Inr None \<or> find_method caps (PyStr s) b m = Inl AttributeError"
proof (induction caps)
  case Nil
  then show ?case by simp
next
  case (Cons cap caps)
  then show ?case by (cases cap) simp
qed

text \<open>Whatever the file and the captures, \<^verbatim>\<open>get_method_source\<close> returns \<^verbatim>\<open>None\<close>.\<close>

lemma get_method_source_none: "fst (get_method_source w m p) = None"
proof -
  have "get_method_source_body w m p = Inr None \<or> (\<exists>e. get_method_source_body w m p = Inl e)"
  proof (cases "supported_extensions (path_suffix p)")
    case None
    then show ?thesis by (simp add: get_method_source_body_def)
  next
    case (Some l)
    show ?thesis
    proof (cases "read_file w p")
      case None
      then show ?thesis using Some by (simp add: get_method_source_body_def)
    next
      case (Some bs)
      show ?thesis
      proof (cases "decode_utf8 bs")
        case (Inl e)
        then show ?thesis using Some \<open>supported_extensions (path_suffix p) = Some l\<close>
          by (simp add: get_method_source_body_def)
      next
        case (Inr s)
        then show ?thesis using Some \<open>supported_extensions (path_suffix p) = Some l\<close>
            find_method_str[of "ts_captures w l Q_method_declaration (ts_parse w l bs)" s bs m]
          by (auto simp: get_method_source_body_def)
      qed
    qed
  qed
  then show ?thesis by (auto simp: get_method_source_def)
qed

text \<open>
  Claim C1. The code does not do this: \<^verbatim>\<open>get_method_source\<close> hands the decoded str to
  \<^verbatim>\<open>_get_node_text\<close>, which calls \<^verbatim>\<open>decode\<close> on a slice of it, so the first
  \<^verbatim>\<open>method_name\<close> capture raises \<^verbatim>\<open>AttributeError\<close> and the function returns \<^verbatim>\<open>None\<close>.
  In the first example the method \<^verbatim>\<open>f\<close> is captured, its name decodes to \<^verbatim>\<open>f\<close>, the span
  of its declaration is \<^verbatim>\<open>[10, 29)\<close> with text \<^verbatim>\<open>void f() { b.g(); }\<close>, and the function
  returns \<^verbatim>\<open>None\<close> and logs the error.
\<close>

theorem get_method_source_loses_existing_method:
  "get_method_source ex1_world ''f'' ''proj/A.java'' = (None, [AttributeError])
   \<and> (at ex1_tree [0, 1, 0, 1], ''method_name'')
       \<in> set (ts_captures ex1_world JAVA_LANGUAGE Q_method_declaration
                (ts_parse ex1_world JAVA_LANGUAGE ex1_src))
   \<and> get_node_text (Some (at ex1_tree [0, 1, 0, 1])) (PyBytes ex1_src) = Inr ''f''
   \<and> parent (at ex1_tree [0, 1, 0, 1]) = Some (10, 29)
   \<and> decode_utf8 (slice ex1_src 10 29) = Inr ''void f() { b.g(); }''"
proof -
  have c1: "get_method_source ex1_world ''f'' ''proj/A.java'' = (None, [AttributeError])"
    by code_simp
  have c2: "(at ex1_tree [0, 1, 0, 1], ''method_name'')
       \<in> set (ts_captures ex1_world JAVA_LANGUAGE Q_method_declaration
                (ts_parse ex1_world JAVA_LANGUAGE ex1_src))"
    by code_simp
  have c3: "get_node_text (Some (at ex1_tree [0, 1, 0, 1])) (PyBytes ex1_src) = Inr ''f''"
    by code_simp
  have c4: "parent (at ex1_tree [0, 1, 0, 1]) = Some (10, 29)"
    by code_simp
  have c5: "decode_utf8 (slice ex1_src 10 29) = Inr ''void f() { b.g(); }''"
    by code_simp
  show ?thesis using c1 c2 c3 c4 c5 by blast
qed

section \<open>Imports\<close>

text \<open>
  Claim C4. The code does not do this for TypeScript: every capture whose tag starts with
  \<^verbatim>\<open>import\<close> takes the first \<^verbatim>\<open>module_path\<close> capture of the whole list. For the file of
  the fifth example, with the two statements \<^verbatim>\<open>import a from "./x";\<close> and
  \<^verbatim>\<open>import b from "./y";\<close>, both import dependencies carry the path \<^verbatim>\<open>./x\<close>, although the
  path captured for the second statement is \<^verbatim>\<open>"./y"\<close>.
\<close>

theorem typescript_imports_take_first_path:
  "dependencies (state_of (scan_project ex5_world empty_graph ''proj'')) =
     [Import ''proj/i.ts'' ''./x'', Import ''proj/i.ts'' ''./x'']
   \<and> map snd ex5_imports = [''import_default'', ''module_path'', ''import_default'', ''module_path'']
   \<and> map_sum id (\<lambda>s. strip s quote_chars)
         (get_node_text (Some (fst (ex5_imports ! 3))) (PyBytes ex5_src)) = Inr ''./y''"
proof -
  have c1: "dependencies (state_of (scan_project ex5_world empty_graph ''proj'')) =
     [Import ''proj/i.ts'' ''./x'', Import ''proj/i.ts'' ''./x'']"
    by code_simp
  have c2: "map snd ex5_imports =
     [''import_default'', ''module_path'', ''import_default'', ''module_path'']"
    by code_simp
  have c3: "map_sum id (\<lambda>s. strip s quote_chars)
         (get_node_text (Some (fst (ex5_imports ! 3))) (PyBytes ex5_src)) = Inr ''./y''"
    by code_simp
  show ?thesis using c1 c2 c3 by blast
qed

section \<open>Attribution of calls\<close>






section \<open>The enclosing class of a method\<close>

lemma find_all_hd:
  "List.find P xs = (case filter P xs of [] \<Rightarrow> None | y # ys \<Rightarrow> Some y)"
  by (induction xs) auto

text \<open>
  Claim C2, amended. At a method-declaration node whose name decodes, when no class emitted
  for another file holds the start of the node, the enclosing class is the first class
  emitted for the file whose span holds the start of the node (with nested classes the
  outermost one, not the one with the smallest span): a method entity with the name of
  that class is appended and upserted before the children are visited. When no emitted
  class holds the start, nothing is appended or upserted for the node.
\<close>

theorem method_owner_first_enclosing:
  assumes "node_type n = ''method_declaration''"
      and "get_node_text (child_by_field_name n ''name'') source_code = Inr method_name"
      and "\<forall>c \<in> set (classes st). contains c (start_byte n) \<longrightarrow> ent_file c = file_path"
  shows "extract_entities n source_code st file_path =
     (case filter (\<lambda>c. ent_file c = file_path \<and> contains c (start_byte n)) (classes st) of
        [] \<Rightarrow> extract_children (children n) source_code st file_path
      | current_class # earlier \<Rightarrow>
          extract_children (children n) source_code
            (create_method_node method_name (ent_name current_class) file_path
               (st\<lparr>methods := methods st @
                    [\<lparr>ent_name = method_name, ent_class = Some (ent_name current_class),
                      ent_file = file_path, ent_start = start_byte n, ent_end = end_byte n\<rparr>]\<rparr>))
            file_path)"
proof -
  have same: "filter (\<lambda>c. ent_file c = file_path \<and> contains c (start_byte n)) (classes st)
            = filter (\<lambda>c. contains c (start_byte n)) (classes st)"
    using assms(3) by (intro filter_cong) auto
  obtain fl ty s e par cs where n: "n = Node fl ty s e par cs" by (cases n)
  have "declare_entity n source_code st file_path =
     (case filter (\<lambda>c. contains c (start_byte n)) (classes st) of
        [] \<Rightarrow> Done st
      | current_class # earlier \<Rightarrow>
          Done (create_method_node method_name (ent_name current_class) file_path
               (st\<lparr>methods := methods st @
                    [\<lparr>ent_name = method_name, ent_class = Some (ent_name current_class),
                      ent_file = file_path, ent_start = start_byte n, ent_end = end_byte n\<rparr>]\<rparr>)))"
    using assms(1,2) by (simp add: declare_entity_def find_all_hd split: list.split)
  then show ?thesis
    unfolding same by (simp add: n split: list.split)
qed

theorem method_owner_first_enclosing_witness:
  "extract_entities (at ex1_tree [0, 1, 0]) (PyBytes ex1_src)
     ((new_scan empty_graph)\<lparr>classes :=
        [\<lparr>ent_name = ''A'', ent_class = None, ent_file = ''proj/A.java'',
          ent_start = 0, ent_end = 31\<rparr>]\<rparr>) ''proj/A.java''
   = Done ((new_scan empty_graph)\<lparr>
       classes := [\<lparr>ent_name = ''A'', ent_class = None, ent_file = ''proj/A.java'',
                    ent_start = 0, ent_end = 31\<rparr>],
       methods := [\<lparr>ent_name = ''f'', ent_class = Some ''A'', ent_file = ''proj/A.java'',
                    ent_start = 10, ent_end = 29\<rparr>],
       store := \<lparr>nodes = [\<lparr>label = ''Method'', props = [(''name'', ''f''), (''class'', ''A''),
                                                         (''file'', ''proj/A.java'')]\<rparr>,
                           \<lparr>label = ''Class'', props = [(''name'', ''A''),
                                                        (''file'', ''proj/A.java'')]\<rparr>],
                  rels = [(1, ''HAS_METHOD'', 0)]\<rparr>,
       calls := [CreateMethodNode ''f'' ''A'' ''proj/A.java'']\<rparr>)
   \<and> extract_entities (at ex1_tree [0, 1, 0]) (PyBytes ex1_src) (new_scan empty_graph)
       ''proj/A.java'' = Done (new_scan empty_graph)"
proof -
  let ?n = "at ex1_tree [0, 1, 0]"
  let ?A = "\<lparr>ent_name = ''A'', ent_class = None, ent_file = ''proj/A.java'',
             ent_start = 0, ent_end = 31\<rparr>"
  let ?st = "(new_scan empty_graph)\<lparr>classes := [?A]\<rparr>"
  have h0: "node_type ?n = ''method_declaration''" by code_simp
  have h1: "get_node_text (child_by_field_name ?n ''name'') (PyBytes ex1_src) = Inr ''f''"
    by code_simp
  have h2: "\<forall>c \<in> set (classes ?st). contains c (start_byte ?n) \<longrightarrow> ent_file c = ''proj/A.java''"
    by code_simp
  have h3: "\<forall>c \<in> set (classes (new_scan empty_graph)).
              contains c (start_byte ?n) \<longrightarrow> ent_file c = ''proj/A.java''"
    by code_simp
  note a = method_owner_first_enclosing[OF h0 h1 h2]
  note b = method_owner_first_enclosing[OF h0 h1 h3]
  have c1: "extract_entities ?n (PyBytes ex1_src) ?st ''proj/A.java''
   = Done ((new_scan empty_graph)\<lparr>
       classes := [?A],
       methods := [\<lparr>ent_name = ''f'', ent_class = Some ''A'', ent_file = ''proj/A.java'',
                    ent_start = 10, ent_end = 29\<rparr>],
       store := \<lparr>nodes = [\<lparr>label = ''Method'', props = [(''name'', ''f''), (''class'', ''A''),
                                                         (''file'', ''proj/A.java'')]\<rparr>,
                           \<lparr>label = ''Class'', props = [(''name'', ''A''),
                                                        (''file'', ''proj/A.java'')]\<rparr>],
                  rels = [(1, ''HAS_METHOD'', 0)]\<rparr>,
       calls := [CreateMethodNode ''f'' ''A'' ''proj/A.java'']\<rparr>)"
    unfolding a by code_simp
  have c2: "extract_entities ?n (PyBytes ex1_src) (new_scan empty_graph)
       ''proj/A.java'' = Done (new_scan empty_graph)"
    unfolding b by code_simp
  show ?thesis by (rule conjI[OF c1 c2])
qed

text \<open>
  Claim C2 as stated fails. In the third example the method \<^verbatim>\<open>m\<close> starts at offset 20; the
  classes emitted before it are \<^verbatim>\<open>A\<close> with span \<^verbatim>\<open>[0, 35)\<close> and \<^verbatim>\<open>B\<close> with span
  \<^verbatim>\<open>[10, 33)\<close>; the class with the smallest span is \<^verbatim>\<open>B\<close>, the method entity names \<^verbatim>\<open>A\<close>.
\<close>

theorem method_of_nested_class_counterexample:
  "map (\<lambda>c. (ent_name c, ent_start c, ent_end c))
        (classes (state_of (scan_project ex3_world empty_graph ''proj''))) =
       [(''A'', 0, 35), (''B'', 10, 33)]
   \<and> methods (state_of (scan_project ex3_world empty_graph ''proj'')) =
       [\<lparr>ent_name = ''m'', ent_class = Some ''A'', ent_file = ''proj/N.java'',
         ent_start = 20, ent_end = 31\<rparr>]
   \<and> map_option ent_name
        (spec_smallest_enclosing 20
           (classes (state_of (scan_project ex3_world empty_graph ''proj''))) ''proj/N.java'')
       = Some ''B''"
proof -
  have c1: "map (\<lambda>c. (ent_name c, ent_start c, ent_end c))
        (classes (state_of (scan_project ex3_world empty_graph ''proj''))) =
       [(''A'', 0, 35), (''B'', 10, 33)]"
    by code_simp
  have c2: "methods (state_of (scan_project ex3_world empty_graph ''proj'')) =
       [\<lparr>ent_name = ''m'', ent_class = Some ''A'', ent_file = ''proj/N.java'',
         ent_start = 20, ent_end = 31\<rparr>]"
    by code_simp
  have c3: "map_option ent_name
        (spec_smallest_enclosing 20
           (classes (state_of (scan_project ex3_world empty_graph ''proj''))) ''proj/N.java'')
       = Some ''B''"
    by code_simp
  show ?thesis using c1 c2 c3 by blast
qed

text \<open>
  The lookup of the enclosing class in \<^verbatim>\<open>_extract_entities\<close> has no file filter, unlike
  \<^verbatim>\<open>_find_enclosing_entity\<close>. In the project of two files the method \<^verbatim>\<open>h\<close> of the interface
  in \<^verbatim>\<open>proj/Z.java\<close> starts at offset 14; no class is declared in that file, and the method
  is emitted with the class \<^verbatim>\<open>A\<close> of \<^verbatim>\<open>proj/A.java\<close>, whose span \<^verbatim>\<open>[0, 31)\<close> holds the offset.
\<close>

lemma method_takes_class_of_earlier_file:
  "methods (state_of (scan_project ex6_world empty_graph ''proj'')) ! 2 =
     \<lparr>ent_name = ''h'', ent_class = Some ''A'', ent_file = ''proj/Z.java'',
      ent_start = 14, ent_end = 23\<rparr>
   \<and> filter (\<lambda>c. ent_file c = ''proj/Z.java'')
        (classes (state_of (scan_project ex6_world empty_graph ''proj''))) = []
   \<and> CreateMethodNode ''h'' ''A'' ''proj/Z.java''
        \<in> set (calls (state_of (scan_project ex6_world empty_graph ''proj'')))"
  by code_simp

section \<open>Lemmas on the graph store\<close>

lemma rels_merge_node: "rels (fst (merge_node l kvs g)) = rels g"
  by (simp add: merge_node_def split: list.split)

lemma match_nodes_append:
  "match_nodes (g\<lparr>nodes := nodes g @ [x]\<rparr>) l kvs =
     match_nodes g l kvs @ (if matches l kvs x then [length (nodes g)] else [])"
proof -
  have "filter (\<lambda>i. matches l kvs ((nodes g @ [x]) ! i)) [0 ..< length (nodes g)]
      = filter (\<lambda>i. matches l kvs (nodes g ! i)) [0 ..< length (nodes g)]"
    by (rule filter_cong) (auto simp: nth_append)
  then show ?thesis by (simp add: match_nodes_def)
qed

lemma match_nodes_cong: "nodes g' = nodes g \<Longrightarrow> match_nodes g' l kvs = match_nodes g l kvs"
  by (simp add: match_nodes_def)

lemma nodes_merge_rel: "nodes (merge_rel t ab g) = nodes g"
  by (simp add: merge_rel_def)

lemma nodes_merge_rels: "nodes (merge_rels t rows g) = nodes g"
  unfolding merge_rels_def by (induction rows arbitrary: g) (simp_all add: nodes_merge_rel)

lemma rels_merge_rel_mono: "set (rels g) \<subseteq> set (rels (merge_rel t ab g))"
  by (auto simp: merge_rel_def)

lemma rels_merge_rels_mono: "set (rels g) \<subseteq> set (rels (merge_rels t rows g))"
  unfolding merge_rels_def
proof (induction rows arbitrary: g)
  case Nil
  then show ?case by simp
next
  case (Cons r rows)
  show ?case using Cons.IH[of "merge_rel t r g"] rels_merge_rel_mono[of g t r] by auto
qed

lemma merge_rels_present:
  "\<forall>ab \<in> set rows. (fst ab, t, snd ab) \<in> set (rels (merge_rels t rows g))"
  unfolding merge_rels_def
proof (induction rows arbitrary: g)
  case Nil
  then show ?case by simp
next
  case (Cons r rows)
  have "(fst r, t, snd r) \<in> set (rels (merge_rel t r g))"
    by (simp add: merge_rel_def)
  then have "(fst r, t, snd r) \<in> set (rels (fold (merge_rel t) rows (merge_rel t r g)))"
    using rels_merge_rels_mono[of "merge_rel t r g" t rows] unfolding merge_rels_def by blast
  then show ?case using Cons.IH[of "merge_rel t r g"] by simp
qed

lemma merge_rels_noop:
  "\<forall>ab \<in> set rows. (fst ab, t, snd ab) \<in> set (rels g) \<Longrightarrow> merge_rels t rows g = g"
  unfolding merge_rels_def by (induction rows) (simp_all add: merge_rel_def)

lemma merge_rels_fixed:
  "merge_rels t rows g = g \<Longrightarrow> \<forall>ab \<in> set rows. (fst ab, t, snd ab) \<in> set (rels g)"
  using merge_rels_present[of rows t g] by simp

lemma merge_node_if:
  "merge_node l kvs g =
     (if match_nodes g l kvs = []
      then (g\<lparr>nodes := nodes g @ [\<lparr>label = l, props = kvs\<rparr>]\<rparr>, [length (nodes g)])
      else (g, match_nodes g l kvs))"
  by (simp add: merge_node_def split: list.split)

section \<open>Inheritance dependencies\<close>

lemma rels_merge_rel: "set (rels (merge_rel t ab g)) \<subseteq> set (rels g) \<union> rels_of_type t"
  by (auto simp: merge_rel_def rels_of_type_def)

lemma rels_merge_rels: "set (rels (merge_rels t rows g)) \<subseteq> set (rels g) \<union> rels_of_type t"
  unfolding merge_rels_def
proof (induction rows arbitrary: g)
  case Nil
  then show ?case by simp
next
  case (Cons r rows)
  have "set (rels (fold (merge_rel t) rows (merge_rel t r g)))
          \<subseteq> set (rels (merge_rel t r g)) \<union> rels_of_type t"
    by (rule Cons.IH)
  then show ?case using rels_merge_rel[of t r g] by auto
qed

lemma rels_match_merge:
  "set (rels (match_merge rows l kvs t g)) \<subseteq> set (rels g) \<union> rels_of_type t"
proof (cases "rows = []")
  case True
  then show ?thesis by (simp add: match_merge_def)
next
  case False
  obtain g1 bs where m: "merge_node l kvs g = (g1, bs)" by (cases "merge_node l kvs g")
  then have "rels g1 = rels g" using rels_merge_node[of l kvs g] by simp
  then show ?thesis
    using False m rels_merge_rels[of t "concat (map (\<lambda>a. map (\<lambda>b. (a, b)) bs) rows)" g1]
    by (simp add: match_merge_def)
qed

lemma rels_fold_implements:
  "set (rels (fold (\<lambda>i. merge_implements c f i) ifs g)) \<subseteq> set (rels g) \<union> rels_of_type ''IMPLEMENTS''"
proof (induction ifs arbitrary: g)
  case Nil
  then show ?case by simp
next
  case (Cons i ifs)
  have "set (rels (fold (\<lambda>i. merge_implements c f i) ifs (merge_implements c f i g)))
          \<subseteq> set (rels (merge_implements c f i g)) \<union> rels_of_type ''IMPLEMENTS''"
    by (rule Cons.IH)
  moreover have "set (rels (merge_implements c f i g)) \<subseteq> set (rels g) \<union> rels_of_type ''IMPLEMENTS''"
    unfolding merge_implements_def by (rule rels_match_merge)
  ultimately show ?case by auto
qed

lemma adds_only_interfaces: "adds_only ''IMPLEMENTS'' (Inheritance c f (Some ifs) par) g"
  by (simp add: adds_only_def rels_fold_implements)

lemma adds_only_parent: "adds_only ''EXTENDS'' (Inheritance c f None (Some p)) g"
  by (simp add: adds_only_def merge_extends_def rels_match_merge)

lemma process_call_appends:
  "dependencies (state_of (process_call caps src fp n st)) = dependencies st
   \<or> (\<exists>cc cm cal. dependencies (state_of (process_call caps src fp n st))
         = dependencies st @ [MethodCall cc cm cal fp])"
  by (simp add: process_call_def add_dependency_def split: sum.split option.split prod.split)

lemma process_capture_appends:
  "dependencies (state_of (process_capture caps lang src fp cap st)) = dependencies st
   \<or> (\<exists>d. dependencies (state_of (process_capture caps lang src fp cap st)) = dependencies st @ [d]
          \<and> inheritance_ok lang g d)"
proof (cases cap)
  case (Pair n tag)
  have call: "dependencies (state_of (process_call caps src fp n st)) = dependencies st
   \<or> (\<exists>d. dependencies (state_of (process_call caps src fp n st)) = dependencies st @ [d]
          \<and> inheritance_ok lang g d)"
    using process_call_appends[of caps src fp n st] by (auto simp: inheritance_ok_def)
  show ?thesis
    unfolding Pair process_capture_def
    using call
    by (simp add: add_dependency_def inheritance_ok_def adds_only_interfaces adds_only_parent
        split: sum.split option.split)
qed


lemma process_captures_appends:
  "\<exists>new. dependencies (state_of (process_captures caps lang src fp todo st)) = dependencies st @ new
        \<and> list_all (inheritance_ok lang g) new"
proof (induction todo arbitrary: st)
  case Nil
  then show ?case by simp
next
  case (Cons cap todo)
  obtain new1 where s1: "dependencies (state_of (process_capture caps lang src fp cap st))
      = dependencies st @ new1" "list_all (inheritance_ok lang g) new1"
  proof -
    from process_capture_appends[of caps lang src fp cap st g]
    show ?thesis
    proof
      assume "dependencies (state_of (process_capture caps lang src fp cap st)) = dependencies st"
      then show ?thesis using that[of "[]"] by simp
    next
      assume "\<exists>d. dependencies (state_of (process_capture caps lang src fp cap st))
                  = dependencies st @ [d] \<and> inheritance_ok lang g d"
      then obtain d where "dependencies (state_of (process_capture caps lang src fp cap st))
                  = dependencies st @ [d]" "inheritance_ok lang g d" by blast
      then show ?thesis using that[of "[d]"] by simp
    qed
  qed
  show ?case
  proof (cases "process_capture caps lang src fp cap st")
    case (Done st')
    obtain new2 where s2: "dependencies (state_of (process_captures caps lang src fp todo st'))
        = dependencies st' @ new2" "list_all (inheritance_ok lang g) new2"
      using Cons.IH[of st'] by blast
    have "dependencies (state_of (process_captures caps lang src fp (cap # todo) st))
        = dependencies st @ (new1 @ new2)"
      using Done s1(1) s2(1) by simp
    moreover have "list_all (inheritance_ok lang g) (new1 @ new2)"
      using s1(2) s2(2) by simp
    ultimately show ?thesis by blast
  next
    case (Raised e st')
    then show ?thesis using s1 by auto
  qed
qed

section \<open>Nesting of method spans\<close>

lemma find_append:
  "List.find P (xs @ ys) = (case List.find P xs of None \<Rightarrow> List.find P ys | Some x \<Rightarrow> Some x)"
  by (induction xs) auto

lemma grows_refl: "grows st st lo hi"
  by (simp add: grows_def)

lemma grows_trans:
  "grows st st1 lo1 hi1 \<Longrightarrow> grows st1 st2 lo2 hi2 \<Longrightarrow> lo \<le> lo1 \<Longrightarrow> hi1 \<le> hi
     \<Longrightarrow> lo \<le> lo2 \<Longrightarrow> hi2 \<le> hi \<Longrightarrow> grows st st2 lo hi"
  unfolding grows_def by fastforce

lemma owner_ok_append_class:
  assumes "owner_ok fp st" "classes st' = classes st @ new" "methods st' = methods st"
  shows "owner_ok fp st'"
  unfolding owner_ok_def
proof (intro ballI impI)
  fix m assume m: "m \<in> set (methods st')" "ent_file m = fp"
  then obtain c where c: "List.find (\<lambda>c. contains c (ent_start m)) (classes st) = Some c"
    "ent_class m = Some (ent_name c)"
    "ent_file c = fp \<longrightarrow> ent_start c \<le> ent_start m \<and> ent_end m \<le> ent_end c"
    using assms(1,3) unfolding owner_ok_def by auto
  have "List.find (\<lambda>c. contains c (ent_start m)) (classes st') = Some c"
    using c(1) assms(2) by (simp add: find_append)
  then show "\<exists>c. List.find (\<lambda>c. contains c (ent_start m)) (classes st') = Some c
             \<and> ent_class m = Some (ent_name c)
             \<and> (ent_file c = fp \<longrightarrow> ent_start c \<le> ent_start m \<and> ent_end m \<le> ent_end c)"
    using c(2,3) by blast
qed

lemma scope_inv_shrink:
  "scope_inv fp st lo hi \<Longrightarrow> lo \<le> lo' \<Longrightarrow> hi' \<le> hi \<Longrightarrow> scope_inv fp st lo' hi'"
  unfolding scope_inv_def by fastforce

lemma scope_inv_grows:
  assumes "scope_inv fp st lo hi" "grows st st' s e" "e \<le> lo'" "lo \<le> lo'" "hi' \<le> hi"
  shows "scope_inv fp st' lo' hi'"
proof -
  obtain new where new: "classes st' = classes st @ new"
    "\<forall>c \<in> set new. s \<le> ent_start c \<and> ent_end c \<le> e"
    using assms(2) unfolding grows_def by blast
  show ?thesis
    unfolding scope_inv_def
  proof (intro ballI impI)
    fix c assume c: "c \<in> set (classes st')" "ent_file c = fp"
    show "ent_start c \<le> lo' \<and> hi' \<le> ent_end c \<or> ent_end c \<le> lo'"
    proof (cases "c \<in> set (classes st)")
      case True
      then have "ent_start c \<le> lo \<and> hi \<le> ent_end c \<or> ent_end c \<le> lo"
        using assms(1) c(2) unfolding scope_inv_def by blast
      then show ?thesis using assms(4,5) by auto
    next
      case False
      then have "c \<in> set new" using c(1) new(1) by auto
      then have "ent_end c \<le> e" using new(2) by blast
      then show ?thesis using assms(3) by auto
    qed
  qed
qed


lemma wf_node_span: "wf_node n \<Longrightarrow> start_byte n \<le> end_byte n"
  by (cases n) simp

lemma declare_entity_scope:
  assumes span: "start_byte n \<le> end_byte n"
      and inv: "scope_inv fp st (start_byte n) (end_byte n)"
      and own: "owner_ok fp st"
  shows "owner_ok fp (state_of (declare_entity n src st fp))
       \<and> scope_inv fp (state_of (declare_entity n src st fp)) (start_byte n) (end_byte n)
       \<and> grows st (state_of (declare_entity n src st fp)) (start_byte n) (end_byte n)"
proof -
  let ?s = "start_byte n" and ?e = "end_byte n"
  have same: "owner_ok fp st \<and> scope_inv fp st ?s ?e \<and> grows st st ?s ?e"
    using inv own by (simp add: grows_refl)
  consider (cls) "node_type n = ''class_declaration''"
    | (meth) "node_type n \<noteq> ''class_declaration''" "node_type n = ''method_declaration''"
    | (other) "node_type n \<noteq> ''class_declaration''" "node_type n \<noteq> ''method_declaration''"
    by blast
  then show ?thesis
  proof cases
    case cls
    show ?thesis
    proof (cases "get_node_text (child_by_field_name n ''name'') src")
      case (Inl err)
      then show ?thesis using cls same by (simp add: declare_entity_def)
    next
      case (Inr class_name)
      let ?c = "\<lparr>ent_name = class_name, ent_class = None, ent_file = fp,
                  ent_start = ?s, ent_end = ?e\<rparr>"
      let ?st' = "create_class_node class_name fp (st\<lparr>classes := classes st @ [?c]\<rparr>)"
      have res: "state_of (declare_entity n src st fp) = ?st'"
        using cls Inr by (simp add: declare_entity_def)
      have cl: "classes ?st' = classes st @ [?c]" and me: "methods ?st' = methods st"
        by (simp_all add: create_class_node_def)
      have g: "grows st ?st' ?s ?e"
        unfolding grows_def using cl by simp
      have o: "owner_ok fp ?st'"
        using own cl me by (rule owner_ok_append_class)
      have i: "scope_inv fp ?st' ?s ?e"
        using inv unfolding scope_inv_def cl by auto
      show ?thesis unfolding res using g o i by blast
    qed
  next
    case meth
    show ?thesis
    proof (cases "get_node_text (child_by_field_name n ''name'') src")
      case (Inl err)
      then show ?thesis using meth same by (simp add: declare_entity_def)
    next
      case (Inr method_name)
      show ?thesis
      proof (cases "List.find (\<lambda>cls. contains cls ?s) (classes st)")
        case None
        then show ?thesis using meth Inr same by (simp add: declare_entity_def)
      next
        case (Some cur)
        let ?m = "\<lparr>ent_name = method_name, ent_class = Some (ent_name cur), ent_file = fp,
                    ent_start = ?s, ent_end = ?e\<rparr>"
        let ?st' = "create_method_node method_name (ent_name cur) fp
                      (st\<lparr>methods := methods st @ [?m]\<rparr>)"
        have res: "state_of (declare_entity n src st fp) = ?st'"
          using meth Inr Some by (simp add: declare_entity_def)
        have cl: "classes ?st' = classes st" and me: "methods ?st' = methods st @ [?m]"
          by (simp_all add: create_method_node_def)
        have g: "grows st ?st' ?s ?e"
          unfolding grows_def using cl by simp
        have i: "scope_inv fp ?st' ?s ?e"
          using inv unfolding scope_inv_def cl .
        have cur: "cur \<in> set (classes st)" "contains cur ?s"
          using Some by (auto simp: find_Some_iff)
        have encl: "ent_file cur = fp \<longrightarrow> ent_start cur \<le> ?s \<and> ?e \<le> ent_end cur"
          using inv cur unfolding scope_inv_def contains_def by fastforce
        have o: "owner_ok fp ?st'"
          unfolding owner_ok_def
        proof (intro ballI impI)
          fix m assume m: "m \<in> set (methods ?st')" "ent_file m = fp"
          show "\<exists>c. List.find (\<lambda>c. contains c (ent_start m)) (classes ?st') = Some c
                  \<and> ent_class m = Some (ent_name c)
                  \<and> (ent_file c = fp \<longrightarrow> ent_start c \<le> ent_start m \<and> ent_end m \<le> ent_end c)"
          proof (cases "m = ?m")
            case True
            then show ?thesis using Some encl cl by simp
          next
            case False
            then have "m \<in> set (methods st)" using m(1) me by simp
            then show ?thesis using own m(2) unfolding owner_ok_def cl by blast
          qed
        qed
        show ?thesis unfolding res using g o i by blast
      qed
    qed
  next
    case other
    then show ?thesis using same by (simp add: declare_entity_def)
  qed
qed

lemma extract_scope:
  "wf_node n \<longrightarrow> scope_inv fp st (start_byte n) (end_byte n) \<longrightarrow> owner_ok fp st \<longrightarrow>
     owner_ok fp (state_of (extract_entities n src st fp))
     \<and> grows st (state_of (extract_entities n src st fp)) (start_byte n) (end_byte n)"
  "\<forall>lo hi. wf_nodes lo hi ns \<longrightarrow> scope_inv fp st lo hi \<longrightarrow> owner_ok fp st \<longrightarrow>
     owner_ok fp (state_of (extract_children ns src st fp))
     \<and> grows st (state_of (extract_children ns src st fp)) lo hi"
proof (induction n src st fp and ns src st fp rule: extract_entities_extract_children.induct)
  case (1 fl ty s e par cs src st fp)
  let ?n = "Node fl ty s e par cs"
  show ?case
  proof (intro impI)
    assume wf: "wf_node ?n" and inv: "scope_inv fp st (start_byte ?n) (end_byte ?n)"
      and own: "owner_ok fp st"
    have span: "s \<le> e" and wfc: "wf_nodes s e cs" using wf by simp_all
    have d: "owner_ok fp (state_of (declare_entity ?n src st fp))"
      "scope_inv fp (state_of (declare_entity ?n src st fp)) s e"
      "grows st (state_of (declare_entity ?n src st fp)) s e"
      using declare_entity_scope[of ?n fp st src] span inv own by simp_all
    show "owner_ok fp (state_of (extract_entities ?n src st fp))
       \<and> grows st (state_of (extract_entities ?n src st fp)) (start_byte ?n) (end_byte ?n)"
    proof (cases "declare_entity ?n src st fp")
      case (Done st1)
      have "owner_ok fp (state_of (extract_children cs src st1 fp))
          \<and> grows st1 (state_of (extract_children cs src st1 fp)) s e"
        using "1.IH"[OF Done] wfc d(1,2) Done by simp
      then show ?thesis
        using Done d(3) grows_trans[of st st1 s e "state_of (extract_children cs src st1 fp)" s e s e]
        by simp
    next
      case (Raised err st1)
      then show ?thesis using d by simp
    qed
  qed
next
  case (2 src st fp)
  then show ?case by (simp add: grows_refl)
next
  case (3 child rest src st fp)
  show ?case
  proof (intro allI impI)
    fix lo hi
    assume wf: "wf_nodes lo hi (child # rest)" and inv: "scope_inv fp st lo hi"
      and own: "owner_ok fp st"
    have b: "lo \<le> start_byte child" "end_byte child \<le> hi" "wf_node child"
      "wf_nodes (end_byte child) hi rest"
      using wf by simp_all
    have sp: "start_byte child \<le> end_byte child" using b(3) by (rule wf_node_span)
    have inv1: "scope_inv fp st (start_byte child) (end_byte child)"
      using inv b(1,2) by (rule scope_inv_shrink)
    have s1: "owner_ok fp (state_of (extract_entities child src st fp))"
      "grows st (state_of (extract_entities child src st fp)) (start_byte child) (end_byte child)"
      using "3.IH"(1) b(3) inv1 own by simp_all
    show "owner_ok fp (state_of (extract_children (child # rest) src st fp))
        \<and> grows st (state_of (extract_children (child # rest) src st fp)) lo hi"
    proof (cases "extract_entities child src st fp")
      case (Done st1)
      have o1: "owner_ok fp st1" and g1: "grows st st1 (start_byte child) (end_byte child)"
        using s1 Done by simp_all
      have inv2: "scope_inv fp st1 (end_byte child) hi"
        using inv g1 by (rule scope_inv_grows) (use b sp in auto)
      have "owner_ok fp (state_of (extract_children rest src st1 fp))
          \<and> grows st1 (state_of (extract_children rest src st1 fp)) (end_byte child) hi"
        using "3.IH"(2)[OF Done] b(4) inv2 o1 by simp
      then show ?thesis
        using Done g1 b sp
          grows_trans[of st st1 "start_byte child" "end_byte child"
            "state_of (extract_children rest src st1 fp)" "end_byte child" hi lo hi]
        by simp
    next
      case (Raised err st1)
      then show ?thesis
        using s1 b grows_trans[of st st1 "start_byte child" "end_byte child" st1
            "start_byte child" "end_byte child" lo hi] grows_refl[of st1]
        by simp
    qed
  qed
qed

lemma declare_entity_files:
  "set (classes (state_of (declare_entity n src st fp)))
     \<subseteq> set (classes st) \<union> {c. ent_file c = fp}"
  by (auto simp: declare_entity_def create_class_node_def create_method_node_def
      split: sum.splits option.splits)

lemma extract_files:
  "set (classes (state_of (extract_entities n src st fp)))
     \<subseteq> set (classes st) \<union> {c. ent_file c = fp}"
  "set (classes (state_of (extract_children ns src st fp)))
     \<subseteq> set (classes st) \<union> {c. ent_file c = fp}"
proof (induction n src st fp and ns src st fp rule: extract_entities_extract_children.induct)
  case (1 fl ty s e par cs source_code st file_path)
  show ?case
  proof (cases "declare_entity (Node fl ty s e par cs) source_code st file_path")
    case (Done st1)
    then show ?thesis
      using "1.IH"[OF Done]
        declare_entity_files[of "Node fl ty s e par cs" source_code st file_path]
      by auto
  next
    case (Raised err st1)
    then show ?thesis
      using declare_entity_files[of "Node fl ty s e par cs" source_code st file_path]
      by auto
  qed
next
  case (2 source_code st file_path)
  then show ?case by simp
next
  case (3 child rest source_code st file_path)
  show ?case
  proof (cases "extract_entities child source_code st file_path")
    case (Done st1)
    then show ?thesis using "3.IH"(1) "3.IH"(2)[OF Done] by auto
  next
    case (Raised err st1)
    then show ?thesis using "3.IH"(1) by auto
  qed
qed

text \<open>
  Claim C5, amended. Entity extraction runs over a tree as a parser builds it, for a file of
  which the scanner holds no entity yet. Take a class entity and a method entity of the file
  such that the method names the class as its owner, the class is the only class of the file
  with that name, and no class of another file holds the start of the method. Then the span
  of the method lies inside the span of the class.
\<close>

theorem method_span_within_owner:
  assumes "wf_node root"
      and "\<forall>c' \<in> set (classes st). ent_file c' \<noteq> file_path"
      and "\<forall>m' \<in> set (methods st). ent_file m' \<noteq> file_path"
      and "c \<in> set (classes (state_of (extract_entities root source_code st file_path)))"
      and "m \<in> set (methods (state_of (extract_entities root source_code st file_path)))"
      and "ent_file c = file_path"
      and "ent_file m = file_path"
      and "ent_class m = Some (ent_name c)"
      and "\<forall>c' \<in> set (classes (state_of (extract_entities root source_code st file_path))).
             ent_file c' = file_path \<and> ent_name c' = ent_name c \<longrightarrow> c' = c"
      and "\<forall>c' \<in> set (classes st). \<not> contains c' (ent_start m)"
  shows "ent_start c \<le> ent_start m \<and> ent_end m \<le> ent_end c"
proof -
  let ?st' = "state_of (extract_entities root source_code st file_path)"
  have inv: "scope_inv file_path st (start_byte root) (end_byte root)"
    using assms(2) by (simp add: scope_inv_def)
  have own: "owner_ok file_path st"
    using assms(3) by (simp add: owner_ok_def)
  have "owner_ok file_path ?st'"
    using extract_scope(1)[of root file_path st source_code] assms(1) inv own by simp
  then obtain c0 where c0: "List.find (\<lambda>c. contains c (ent_start m)) (classes ?st') = Some c0"
      "ent_class m = Some (ent_name c0)"
      "ent_file c0 = file_path \<longrightarrow> ent_start c0 \<le> ent_start m \<and> ent_end m \<le> ent_end c0"
    using assms(5,7) unfolding owner_ok_def by blast
  have memb: "c0 \<in> set (classes ?st')" and inside: "contains c0 (ent_start m)"
    using c0(1) by (auto simp: find_Some_iff)
  have "c0 \<notin> set (classes st)" using inside assms(10) by blast
  then have samef: "ent_file c0 = file_path"
    using memb extract_files(1)[of root source_code st file_path] by blast
  have "ent_name c0 = ent_name c" using c0(2) assms(8) by simp
  then have "c0 = c" using assms(9) memb samef by blast
  then show ?thesis using c0(3) samef by simp
qed


theorem method_span_within_owner_witness:
  "wf_node ex1_tree
   \<and> classes ex2_state =
       [\<lparr>ent_name = ''C'', ent_class = None, ent_file = ''proj/C.java'',
         ent_start = 0, ent_end = 26\<rparr>]
   \<and> classes (state_of (extract_entities ex1_tree (PyBytes ex1_src) ex2_state ''proj/A.java'')) =
       [\<lparr>ent_name = ''C'', ent_class = None, ent_file = ''proj/C.java'',
         ent_start = 0, ent_end = 26\<rparr>,
        \<lparr>ent_name = ''A'', ent_class = None, ent_file = ''proj/A.java'',
         ent_start = 0, ent_end = 31\<rparr>,
        \<lparr>ent_name = ''B'', ent_class = None, ent_file = ''proj/A.java'',
         ent_start = 32, ent_end = 55\<rparr>]
   \<and> methods (state_of (extract_entities ex1_tree (PyBytes ex1_src) ex2_state ''proj/A.java'')) =
       [\<lparr>ent_name = ''f'', ent_class = Some ''C'', ent_file = ''proj/A.java'',
         ent_start = 10, ent_end = 29\<rparr>,
        \<lparr>ent_name = ''g'', ent_class = Some ''B'', ent_file = ''proj/A.java'',
         ent_start = 42, ent_end = 53\<rparr>]
   \<and> ent_start (classes (state_of (extract_entities ex1_tree (PyBytes ex1_src) ex2_state
                                    ''proj/A.java'')) ! 2)
       \<le> ent_start (methods (state_of (extract_entities ex1_tree (PyBytes ex1_src) ex2_state
                                    ''proj/A.java'')) ! 1)
   \<and> ent_end (methods (state_of (extract_entities ex1_tree (PyBytes ex1_src) ex2_state
                                    ''proj/A.java'')) ! 1)
       \<le> ent_end (classes (state_of (extract_entities ex1_tree (PyBytes ex1_src) ex2_state
                                    ''proj/A.java'')) ! 2)"
proof -
  let ?st = "state_of (extract_entities ex1_tree (PyBytes ex1_src) ex2_state ''proj/A.java'')"
  let ?B = "\<lparr>ent_name = ''B'', ent_class = None, ent_file = ''proj/A.java'',
             ent_start = 32, ent_end = 55\<rparr>"
  let ?g = "\<lparr>ent_name = ''g'', ent_class = Some ''B'', ent_file = ''proj/A.java'',
             ent_start = 42, ent_end = 53\<rparr>"
  have h1: "wf_node ex1_tree" by code_simp
  have h2: "\<forall>c' \<in> set (classes ex2_state). ent_file c' \<noteq> ''proj/A.java''"
    by code_simp
  have h3: "\<forall>m' \<in> set (methods ex2_state). ent_file m' \<noteq> ''proj/A.java''"
    by code_simp
  have h4: "?B \<in> set (classes ?st)" by code_simp
  have h5: "?g \<in> set (methods ?st)" by code_simp
  have h6: "ent_file ?B = ''proj/A.java''" by simp
  have h7: "ent_file ?g = ''proj/A.java''" by simp
  have h8: "ent_class ?g = Some (ent_name ?B)" by simp
  have h9: "\<forall>c' \<in> set (classes ?st).
              ent_file c' = ''proj/A.java'' \<and> ent_name c' = ent_name ?B \<longrightarrow> c' = ?B"
    by code_simp
  have h10: "\<forall>c' \<in> set (classes ex2_state). \<not> contains c' (ent_start ?g)"
    by code_simp
  have c: "ent_start ?B \<le> ent_start ?g \<and> ent_end ?g \<le> ent_end ?B"
    by (rule method_span_within_owner[OF h1 h2 h3 h4 h5 h6 h7 h8 h9 h10])
  have v1: "classes ex2_state =
       [\<lparr>ent_name = ''C'', ent_class = None, ent_file = ''proj/C.java'',
         ent_start = 0, ent_end = 26\<rparr>]"
    by code_simp
  have v2: "classes ?st =
       [\<lparr>ent_name = ''C'', ent_class = None, ent_file = ''proj/C.java'',
         ent_start = 0, ent_end = 26\<rparr>,
        \<lparr>ent_name = ''A'', ent_class = None, ent_file = ''proj/A.java'',
         ent_start = 0, ent_end = 31\<rparr>, ?B]"
    by code_simp
  have v3: "methods ?st =
       [\<lparr>ent_name = ''f'', ent_class = Some ''C'', ent_file = ''proj/A.java'',
         ent_start = 10, ent_end = 29\<rparr>, ?g]"
    by code_simp
  show ?thesis using h1 v1 v2 v3 c by simp
qed

text \<open>
  Claim C5 as stated fails. A method entity records the name of its class, not the class
  entity. In the file \<^verbatim>\<open>class A { void m() {} } class B { class A {} }\<close> the method \<^verbatim>\<open>m\<close> with
  span \<^verbatim>\<open>[10, 21)\<close> names \<^verbatim>\<open>A\<close>; the second class \<^verbatim>\<open>A\<close> of the file has span \<^verbatim>\<open>[34, 44)\<close>, so
  the pair is of the same file, the owner of the method is that class by name and file, and
  the method ends before the class starts. The store has one node for the two classes
  \<^verbatim>\<open>A\<close>, joined to the method.
\<close>

theorem method_outside_class_of_its_name_counterexample:
  "classes (state_of (scan_project ex7_world empty_graph ''proj'')) =
     [\<lparr>ent_name = ''A'', ent_class = None, ent_file = ''proj/D.java'',
       ent_start = 0, ent_end = 23\<rparr>,
      \<lparr>ent_name = ''B'', ent_class = None, ent_file = ''proj/D.java'',
       ent_start = 24, ent_end = 46\<rparr>,
      \<lparr>ent_name = ''A'', ent_class = None, ent_file = ''proj/D.java'',
       ent_start = 34, ent_end = 44\<rparr>]
   \<and> methods (state_of (scan_project ex7_world empty_graph ''proj'')) =
     [\<lparr>ent_name = ''m'', ent_class = Some ''A'', ent_file = ''proj/D.java'',
       ent_start = 10, ent_end = 21\<rparr>]
   \<and> list_ex (\<lambda>c. list_ex (\<lambda>m. ent_file c = ent_file m \<and> ent_class m = Some (ent_name c)
                                \<and> ent_end m \<le> ent_start c)
                      (methods (state_of (scan_project ex7_world empty_graph ''proj''))))
        (classes (state_of (scan_project ex7_world empty_graph ''proj'')))
   \<and> nodes (store (state_of (scan_project ex7_world empty_graph ''proj''))) =
     [\<lparr>label = ''Class'', props = [(''name'', ''A''), (''file'', ''proj/D.java'')]\<rparr>,
      \<lparr>label = ''Method'',
        props = [(''name'', ''m''), (''class'', ''A''), (''file'', ''proj/D.java'')]\<rparr>,
      \<lparr>label = ''Class'', props = [(''name'', ''B''), (''file'', ''proj/D.java'')]\<rparr>]
   \<and> rels (store (state_of (scan_project ex7_world empty_graph ''proj''))) =
     [(0, ''HAS_METHOD'', 1)]"
proof -
  have c1: "classes (state_of (scan_project ex7_world empty_graph ''proj'')) =
     [\<lparr>ent_name = ''A'', ent_class = None, ent_file = ''proj/D.java'',
       ent_start = 0, ent_end = 23\<rparr>,
      \<lparr>ent_name = ''B'', ent_class = None, ent_file = ''proj/D.java'',
       ent_start = 24, ent_end = 46\<rparr>,
      \<lparr>ent_name = ''A'', ent_class = None, ent_file = ''proj/D.java'',
       ent_start = 34, ent_end = 44\<rparr>]"
    by code_simp
  have c2: "methods (state_of (scan_project ex7_world empty_graph ''proj'')) =
     [\<lparr>ent_name = ''m'', ent_class = Some ''A'', ent_file = ''proj/D.java'',
       ent_start = 10, ent_end = 21\<rparr>]"
    by code_simp
  have c3: "list_ex (\<lambda>c. list_ex (\<lambda>m. ent_file c = ent_file m \<and> ent_class m = Some (ent_name c)
                                \<and> ent_end m \<le> ent_start c)
                      (methods (state_of (scan_project ex7_world empty_graph ''proj''))))
        (classes (state_of (scan_project ex7_world empty_graph ''proj'')))"
    by code_simp
  have c4: "nodes (store (state_of (scan_project ex7_world empty_graph ''proj''))) =
     [\<lparr>label = ''Class'', props = [(''name'', ''A''), (''file'', ''proj/D.java'')]\<rparr>,
      \<lparr>label = ''Method'',
        props = [(''name'', ''m''), (''class'', ''A''), (''file'', ''proj/D.java'')]\<rparr>,
      \<lparr>label = ''Class'', props = [(''name'', ''B''), (''file'', ''proj/D.java'')]\<rparr>]"
    by code_simp
  have c5: "rels (store (state_of (scan_project ex7_world empty_graph ''proj''))) =
     [(0, ''HAS_METHOD'', 1)]"
    by code_simp
  show ?thesis using c1 c2 c3 c4 c5 by blast
qed

text \<open>
  The same happens across files, since the lookup of the class of a method has no file
  filter. In the project of \<^verbatim>\<open>proj/A.java\<close> and \<^verbatim>\<open>proj/Z.java\<close>, the method \<^verbatim>\<open>h\<close> of the
  interface of \<^verbatim>\<open>proj/Z.java\<close> starts at offset 14, which the class \<^verbatim>\<open>A\<close> of \<^verbatim>\<open>proj/A.java\<close>
  holds: the method names \<^verbatim>\<open>A\<close>, its file has a class \<^verbatim>\<open>A\<close> with span \<^verbatim>\<open>[26, 36)\<close>, and the
  store joins the two.
\<close>

lemma method_before_class_of_its_name_and_file:
  "filter (\<lambda>c. ent_file c = ''proj/Z.java'')
       (classes (state_of (scan_project ex8_world empty_graph ''proj''))) =
     [\<lparr>ent_name = ''A'', ent_class = None, ent_file = ''proj/Z.java'',
       ent_start = 26, ent_end = 36\<rparr>]
   \<and> filter (\<lambda>m. ent_file m = ''proj/Z.java'')
       (methods (state_of (scan_project ex8_world empty_graph ''proj''))) =
     [\<lparr>ent_name = ''h'', ent_class = Some ''A'', ent_file = ''proj/Z.java'',
       ent_start = 14, ent_end = 23\<rparr>]
   \<and> List.find (\<lambda>c. contains c 14)
        (classes (state_of (scan_project ex8_world empty_graph ''proj''))) =
       Some \<lparr>ent_name = ''A'', ent_class = None, ent_file = ''proj/A.java'',
              ent_start = 0, ent_end = 31\<rparr>
   \<and> nodes (store (state_of (scan_project ex8_world empty_graph ''proj''))) ! 5 =
       \<lparr>label = ''Class'', props = [(''name'', ''A''), (''file'', ''proj/Z.java'')]\<rparr>
   \<and> nodes (store (state_of (scan_project ex8_world empty_graph ''proj''))) ! 4 =
       \<lparr>label = ''Method'',
         props = [(''name'', ''h''), (''class'', ''A''), (''file'', ''proj/Z.java'')]\<rparr>
   \<and> (5, ''HAS_METHOD'', 4) \<in> set (rels (store (state_of (scan_project ex8_world empty_graph ''proj''))))"
  by (intro conjI; code_simp)

section \<open>Idempotence of the entity upserts\<close>

subsection \<open>Matching after a node is appended\<close>

lemma matches_class_class:
  "matches ''Class'' (class_pat n f) \<lparr>label = ''Class'', props = class_pat n' f'\<rparr>
     = (n = n' \<and> f = f')"
  by (auto simp: matches_def class_pat_def)

lemma matches_method_method:
  "matches ''Method'' (method_pat m c f) \<lparr>label = ''Method'', props = method_pat m' c' f'\<rparr>
     = (m = m' \<and> c = c' \<and> f = f')"
  by (auto simp: matches_def method_pat_def)

lemma matches_label: "l \<noteq> l' \<Longrightarrow> \<not> matches l kvs \<lparr>label = l', props = ps\<rparr>"
  by (simp add: matches_def)

subsection \<open>The merge clauses\<close>


lemma pats_self: "(l, kvs) \<in> entity_pats \<Longrightarrow> matches l kvs \<lparr>label = l, props = kvs\<rparr>"
  by (auto simp: entity_pats_def matches_class_class matches_method_method)

lemma pats_exclusive:
  "(l, kvs) \<in> entity_pats \<Longrightarrow> (l', kvs') \<in> entity_pats \<Longrightarrow>
     matches l' kvs' \<lparr>label = l, props = kvs\<rparr> \<Longrightarrow> l = l' \<and> kvs = kvs'"
  by (auto simp: entity_pats_def matches_class_class matches_method_method matches_label)

lemma class_pat_in: "(''Class'', class_pat n f) \<in> entity_pats"
  and method_pat_in: "(''Method'', method_pat m c f) \<in> entity_pats"
  by (auto simp: entity_pats_def)

lemma merge_node_bind:
  assumes "(l, kvs) \<in> entity_pats"
  shows "match_nodes (fst (merge_node l kvs g)) l kvs = snd (merge_node l kvs g)"
    and "snd (merge_node l kvs g) \<noteq> []"
  using pats_self[OF assms] by (simp_all add: merge_node_if match_nodes_append)

lemma merge_node_keep:
  assumes "(l, kvs) \<in> entity_pats" "(l', kvs') \<in> entity_pats" "match_nodes g l' kvs' \<noteq> []"
  shows "match_nodes (fst (merge_node l kvs g)) l' kvs' = match_nodes g l' kvs'"
proof (cases "match_nodes g l kvs = []")
  case True
  have "\<not> matches l' kvs' \<lparr>label = l, props = kvs\<rparr>"
    using pats_exclusive[OF assms(1,2)] True assms(3) by auto
  then show ?thesis using True by (simp add: merge_node_if match_nodes_append)
next
  case False
  then show ?thesis by (simp add: merge_node_if)
qed

lemma merge_node_other:
  assumes "(l, kvs) \<in> entity_pats" "(l', kvs') \<in> entity_pats" "l \<noteq> l'"
  shows "match_nodes (fst (merge_node l kvs g)) l' kvs' = match_nodes g l' kvs'"
proof -
  have "\<not> matches l' kvs' \<lparr>label = l, props = kvs\<rparr>"
    using pats_exclusive[OF assms(1,2)] assms(3) by auto
  then show ?thesis by (simp add: merge_node_if match_nodes_append)
qed

lemma merge_node_noop: "match_nodes g l kvs \<noteq> [] \<Longrightarrow> merge_node l kvs g = (g, match_nodes g l kvs)"
  by (simp add: merge_node_if)

lemma merge_node_nodes:
  "length (nodes g) \<le> length (nodes (fst (merge_node l kvs g)))"
  "fst (merge_node l kvs g) = g \<Longrightarrow> match_nodes g l kvs \<noteq> []"
proof -
  show "length (nodes g) \<le> length (nodes (fst (merge_node l kvs g)))"
    by (simp add: merge_node_if)
  assume eq: "fst (merge_node l kvs g) = g"
  show "match_nodes g l kvs \<noteq> []"
  proof
    assume "match_nodes g l kvs = []"
    then have "length (nodes (fst (merge_node l kvs g))) = Suc (length (nodes g))"
      by (simp add: merge_node_if)
    then show False using eq by simp
  qed
qed

subsection \<open>The two upserts\<close>

lemma class_upsert_def:
  "apply_call (CreateClassNode n f) g = fst (merge_node ''Class'' (class_pat n f) g)"
  by (simp add: create_class_node_transaction_def class_pat_def)

lemma method_upsert_def:
  "apply_call (CreateMethodNode m c f) g =
     merge_rels ''HAS_METHOD''
       (method_rows (snd (merge_node ''Class'' (class_pat c f)
                            (fst (merge_node ''Method'' (method_pat m c f) g))))
                    (snd (merge_node ''Method'' (method_pat m c f) g)))
       (fst (merge_node ''Class'' (class_pat c f)
               (fst (merge_node ''Method'' (method_pat m c f) g))))"
  by (simp add: create_method_node_transaction_def class_pat_def method_pat_def method_rows_def
        split: prod.split)

lemma class_noop_iff:
  "no_op (CreateClassNode n f) g = (match_nodes g ''Class'' (class_pat n f) \<noteq> [])"
proof
  assume "no_op (CreateClassNode n f) g"
  then have "fst (merge_node ''Class'' (class_pat n f) g) = g"
    unfolding no_op_def class_upsert_def .
  then show "match_nodes g ''Class'' (class_pat n f) \<noteq> []"
    by (rule merge_node_nodes(2))
next
  assume "match_nodes g ''Class'' (class_pat n f) \<noteq> []"
  then show "no_op (CreateClassNode n f) g"
    unfolding no_op_def class_upsert_def by (simp add: merge_node_noop)
qed

lemma method_noop_iff:
  "no_op (CreateMethodNode m c f) g =
     (match_nodes g ''Method'' (method_pat m c f) \<noteq> []
      \<and> match_nodes g ''Class'' (class_pat c f) \<noteq> []
      \<and> (\<forall>ab \<in> set (method_rows (match_nodes g ''Class'' (class_pat c f))
                                   (match_nodes g ''Method'' (method_pat m c f))).
            (fst ab, ''HAS_METHOD'', snd ab) \<in> set (rels g)))"
proof
  assume nop: "no_op (CreateMethodNode m c f) g"
  let ?g1 = "fst (merge_node ''Method'' (method_pat m c f) g)"
  let ?g2 = "fst (merge_node ''Class'' (class_pat c f) ?g1)"
  let ?rows = "method_rows (snd (merge_node ''Class'' (class_pat c f) ?g1))
                 (snd (merge_node ''Method'' (method_pat m c f) g))"
  have eq: "merge_rels ''HAS_METHOD'' ?rows ?g2 = g"
    using nop unfolding no_op_def method_upsert_def .
  then have n2: "nodes ?g2 = nodes g" using nodes_merge_rels[of "''HAS_METHOD''" ?rows ?g2] by simp
  have le1: "length (nodes g) \<le> length (nodes ?g1)" by (rule merge_node_nodes(1))
  have le2: "length (nodes ?g1) \<le> length (nodes ?g2)" by (rule merge_node_nodes(1))
  have hm: "match_nodes g ''Method'' (method_pat m c f) \<noteq> []"
  proof
    assume "match_nodes g ''Method'' (method_pat m c f) = []"
    then have "length (nodes ?g1) = Suc (length (nodes g))" by (simp add: merge_node_if)
    then show False using le2 n2 by simp
  qed
  then have g1: "?g1 = g" by (simp add: merge_node_noop)
  have hc: "match_nodes g ''Class'' (class_pat c f) \<noteq> []"
  proof
    assume "match_nodes g ''Class'' (class_pat c f) = []"
    then have "length (nodes ?g2) = Suc (length (nodes g))" unfolding g1 by (simp add: merge_node_if)
    then show False using n2 by simp
  qed
  then have g2: "?g2 = g" unfolding g1 by (simp add: merge_node_noop)
  have rows: "?rows = method_rows (match_nodes g ''Class'' (class_pat c f))
                                   (match_nodes g ''Method'' (method_pat m c f))"
    unfolding g1 using hm hc by (simp add: merge_node_noop)
  have "merge_rels ''HAS_METHOD'' (method_rows (match_nodes g ''Class'' (class_pat c f))
                                   (match_nodes g ''Method'' (method_pat m c f))) g = g"
    using eq unfolding rows g2 .
  then show "match_nodes g ''Method'' (method_pat m c f) \<noteq> []
      \<and> match_nodes g ''Class'' (class_pat c f) \<noteq> []
      \<and> (\<forall>ab \<in> set (method_rows (match_nodes g ''Class'' (class_pat c f))
                                   (match_nodes g ''Method'' (method_pat m c f))).
            (fst ab, ''HAS_METHOD'', snd ab) \<in> set (rels g))"
    using hm hc merge_rels_fixed by blast
next
  assume a: "match_nodes g ''Method'' (method_pat m c f) \<noteq> []
      \<and> match_nodes g ''Class'' (class_pat c f) \<noteq> []
      \<and> (\<forall>ab \<in> set (method_rows (match_nodes g ''Class'' (class_pat c f))
                                   (match_nodes g ''Method'' (method_pat m c f))).
            (fst ab, ''HAS_METHOD'', snd ab) \<in> set (rels g))"
  then have hm: "match_nodes g ''Method'' (method_pat m c f) \<noteq> []"
    and hc: "match_nodes g ''Class'' (class_pat c f) \<noteq> []"
    and pr: "\<forall>ab \<in> set (method_rows (match_nodes g ''Class'' (class_pat c f))
                                   (match_nodes g ''Method'' (method_pat m c f))).
            (fst ab, ''HAS_METHOD'', snd ab) \<in> set (rels g)"
    by blast+
  note m1 = merge_node_noop[OF hm] and m2 = merge_node_noop[OF hc]
  show "no_op (CreateMethodNode m c f) g"
    unfolding no_op_def method_upsert_def
    by (simp only: m1 m2 fst_conv snd_conv merge_rels_noop[OF pr])
qed


lemma apply_keeps_match:
  assumes "is_upsert c'" "(l, kvs) \<in> entity_pats" "match_nodes g l kvs \<noteq> []"
  shows "match_nodes (apply_call c' g) l kvs = match_nodes g l kvs"
proof (cases c')
  case (CreateClassNode n f)
  show ?thesis
    unfolding CreateClassNode class_upsert_def
    using class_pat_in assms(2,3) by (rule merge_node_keep)
next
  case (CreateMethodNode m c f)
  let ?g1 = "fst (merge_node ''Method'' (method_pat m c f) g)"
  let ?g2 = "fst (merge_node ''Class'' (class_pat c f) ?g1)"
  have k1: "match_nodes ?g1 l kvs = match_nodes g l kvs"
    using method_pat_in assms(2,3) by (rule merge_node_keep)
  then have "match_nodes ?g1 l kvs \<noteq> []" using assms(3) by simp
  then have k2: "match_nodes ?g2 l kvs = match_nodes ?g1 l kvs"
    using class_pat_in assms(2) by (intro merge_node_keep)
  show ?thesis
    unfolding CreateMethodNode method_upsert_def
    using k1 k2 by (simp add: match_nodes_cong[OF nodes_merge_rels])
next
  case (CreateDependency d)
  then show ?thesis using assms(1) by simp
qed

lemma apply_rels_mono:
  assumes "is_upsert c'"
  shows "set (rels g) \<subseteq> set (rels (apply_call c' g))"
proof (cases c')
  case (CreateClassNode n f)
  show ?thesis unfolding CreateClassNode class_upsert_def by (simp add: rels_merge_node)
next
  case (CreateMethodNode m c f)
  let ?g1 = "fst (merge_node ''Method'' (method_pat m c f) g)"
  let ?g2 = "fst (merge_node ''Class'' (class_pat c f) ?g1)"
  have "rels ?g2 = rels g" by (simp add: rels_merge_node)
  then show ?thesis
    unfolding CreateMethodNode method_upsert_def
    using rels_merge_rels_mono[of ?g2 "''HAS_METHOD''"] by metis
next
  case (CreateDependency d)
  then show ?thesis using assms by simp
qed

lemma no_op_stable:
  assumes "no_op c g" "is_upsert c" "is_upsert c'"
  shows "no_op c (apply_call c' g)"
proof (cases c)
  case (CreateClassNode n f)
  have "match_nodes g ''Class'' (class_pat n f) \<noteq> []"
    using assms(1) unfolding CreateClassNode class_noop_iff .
  then have "match_nodes (apply_call c' g) ''Class'' (class_pat n f) \<noteq> []"
    using apply_keeps_match[OF assms(3) class_pat_in] by simp
  then show ?thesis unfolding CreateClassNode class_noop_iff .
next
  case (CreateMethodNode m cl f)
  have h: "match_nodes g ''Method'' (method_pat m cl f) \<noteq> []"
    "match_nodes g ''Class'' (class_pat cl f) \<noteq> []"
    "\<forall>ab \<in> set (method_rows (match_nodes g ''Class'' (class_pat cl f))
                               (match_nodes g ''Method'' (method_pat m cl f))).
        (fst ab, ''HAS_METHOD'', snd ab) \<in> set (rels g)"
    using assms(1) unfolding CreateMethodNode method_noop_iff by blast+
  have km: "match_nodes (apply_call c' g) ''Method'' (method_pat m cl f)
          = match_nodes g ''Method'' (method_pat m cl f)"
    using assms(3) method_pat_in h(1) by (rule apply_keeps_match)
  have kc: "match_nodes (apply_call c' g) ''Class'' (class_pat cl f)
          = match_nodes g ''Class'' (class_pat cl f)"
    using assms(3) class_pat_in h(2) by (rule apply_keeps_match)
  have "\<forall>ab \<in> set (method_rows (match_nodes g ''Class'' (class_pat cl f))
                               (match_nodes g ''Method'' (method_pat m cl f))).
        (fst ab, ''HAS_METHOD'', snd ab) \<in> set (rels (apply_call c' g))"
    using h(3) apply_rels_mono[OF assms(3), of g] by blast
  then show ?thesis
    unfolding CreateMethodNode method_noop_iff km kc using h(1,2) by blast
next
  case (CreateDependency d)
  then show ?thesis using assms(2) by simp
qed

lemma no_op_after:
  assumes "is_upsert c"
  shows "no_op c (apply_call c g)"
proof (cases c)
  case (CreateClassNode n f)
  have "match_nodes (fst (merge_node ''Class'' (class_pat n f) g)) ''Class'' (class_pat n f) \<noteq> []"
    using merge_node_bind[OF class_pat_in, of n f g] by simp
  then show ?thesis unfolding CreateClassNode class_noop_iff class_upsert_def .
next
  case (CreateMethodNode m cl f)
  let ?g1 = "fst (merge_node ''Method'' (method_pat m cl f) g)"
  let ?ms = "snd (merge_node ''Method'' (method_pat m cl f) g)"
  let ?g2 = "fst (merge_node ''Class'' (class_pat cl f) ?g1)"
  let ?cs = "snd (merge_node ''Class'' (class_pat cl f) ?g1)"
  let ?g' = "merge_rels ''HAS_METHOD'' (method_rows ?cs ?ms) ?g2"
  have res: "apply_call (CreateMethodNode m cl f) g = ?g'" unfolding method_upsert_def ..
  have ms: "match_nodes ?g1 ''Method'' (method_pat m cl f) = ?ms" "?ms \<noteq> []"
    using merge_node_bind[OF method_pat_in, of m cl f g] by simp_all
  have cs: "match_nodes ?g2 ''Class'' (class_pat cl f) = ?cs" "?cs \<noteq> []"
    using merge_node_bind[OF class_pat_in, of cl f ?g1] by simp_all
  have "match_nodes ?g2 ''Method'' (method_pat m cl f) = match_nodes ?g1 ''Method'' (method_pat m cl f)"
    using class_pat_in method_pat_in by (rule merge_node_other) simp
  then have m2: "match_nodes ?g' ''Method'' (method_pat m cl f) = ?ms"
    using ms(1) by (simp add: match_nodes_cong[OF nodes_merge_rels])
  have c2: "match_nodes ?g' ''Class'' (class_pat cl f) = ?cs"
    using cs(1) by (simp add: match_nodes_cong[OF nodes_merge_rels])
  have pr: "\<forall>ab \<in> set (method_rows ?cs ?ms). (fst ab, ''HAS_METHOD'', snd ab) \<in> set (rels ?g')"
    by (rule merge_rels_present)
  have "no_op (CreateMethodNode m cl f) ?g'"
    unfolding method_noop_iff m2 c2 using ms(2) cs(2) pr by blast
  then show ?thesis unfolding CreateMethodNode res .
next
  case (CreateDependency d)
  then show ?thesis using assms by simp
qed

subsection \<open>Lists of upserts\<close>

lemma fold_no_op: "\<forall>c \<in> set cs. no_op c g \<Longrightarrow> fold apply_call cs g = g"
  by (induction cs) (simp_all add: no_op_def)

lemma fold_keeps_no_op:
  "list_all is_upsert cs \<Longrightarrow> is_upsert c \<Longrightarrow> no_op c g \<Longrightarrow> no_op c (fold apply_call cs g)"
  by (induction cs arbitrary: g) (simp_all add: no_op_stable)

lemma fold_makes_no_op:
  "list_all is_upsert cs \<Longrightarrow> \<forall>c \<in> set cs. no_op c (fold apply_call cs g)"
proof (induction cs arbitrary: g)
  case Nil
  then show ?case by simp
next
  case (Cons c cs)
  have "no_op c (fold apply_call cs (apply_call c g))"
    using Cons.prems no_op_after[of c g] by (intro fold_keeps_no_op) simp_all
  then show ?case using Cons by simp
qed

lemma upserts_twice:
  "list_all is_upsert cs \<Longrightarrow> fold apply_call cs (fold apply_call cs g) = fold apply_call cs g"
  by (rule fold_no_op) (rule fold_makes_no_op)


subsection \<open>The store is the fold of the upserts sent\<close>

lemma store_with_store: "store (state_of (with_store g out)) = g"
  by (cases out) simp_all

lemma declare_entity_trace:
  "\<exists>cs. list_all is_upsert cs
      \<and> (\<forall>g. declare_entity n src (st\<lparr>store := g\<rparr>) fp
              = with_store (fold apply_call cs g) (declare_entity n src st fp))"
proof -
  consider (cls) class_name where "node_type n = ''class_declaration''"
      "get_node_text (child_by_field_name n ''name'') src = Inr class_name"
    | (meth) method_name cur where "node_type n \<noteq> ''class_declaration''"
      "node_type n = ''method_declaration''"
      "get_node_text (child_by_field_name n ''name'') src = Inr method_name"
      "List.find (\<lambda>cls. contains cls (start_byte n)) (classes st) = Some cur"
    | (none) "\<forall>g. declare_entity n src (st\<lparr>store := g\<rparr>) fp
                  = with_store g (declare_entity n src st fp)"
  proof (cases "node_type n = ''class_declaration''")
    case True
    show ?thesis
    proof (cases "get_node_text (child_by_field_name n ''name'') src")
      case (Inl err)
      then show ?thesis using True none by (simp add: declare_entity_def)
    next
      case (Inr class_name)
      then show ?thesis using True cls by blast
    qed
  next
    case False
    show ?thesis
    proof (cases "node_type n = ''method_declaration''")
      case m: True
      show ?thesis
      proof (cases "get_node_text (child_by_field_name n ''name'') src")
        case (Inl err)
        then show ?thesis using False m none by (simp add: declare_entity_def)
      next
        case (Inr method_name)
        show ?thesis
        proof (cases "List.find (\<lambda>cls. contains cls (start_byte n)) (classes st)")
          case None
          then show ?thesis using False m Inr none by (simp add: declare_entity_def)
        next
          case (Some cur)
          then show ?thesis using False m Inr meth by blast
        qed
      qed
    next
      case False
      then show ?thesis using \<open>node_type n \<noteq> ''class_declaration''\<close> none
        by (simp add: declare_entity_def)
    qed
  qed
  then show ?thesis
  proof cases
    case cls
    have "\<forall>g. declare_entity n src (st\<lparr>store := g\<rparr>) fp
              = with_store (fold apply_call [CreateClassNode class_name fp] g)
                  (declare_entity n src st fp)"
      using cls by (simp add: declare_entity_def create_class_node_def)
    moreover have "list_all is_upsert [CreateClassNode class_name fp]" by simp
    ultimately show ?thesis by blast
  next
    case meth
    have "\<forall>g. declare_entity n src (st\<lparr>store := g\<rparr>) fp
              = with_store (fold apply_call [CreateMethodNode method_name (ent_name cur) fp] g)
                  (declare_entity n src st fp)"
      using meth by (simp add: declare_entity_def create_method_node_def)
    moreover have "list_all is_upsert [CreateMethodNode method_name (ent_name cur) fp]" by simp
    ultimately show ?thesis by blast
  next
    case none
    then have "\<forall>g. declare_entity n src (st\<lparr>store := g\<rparr>) fp
              = with_store (fold apply_call [] g) (declare_entity n src st fp)"
      by simp
    moreover have "list_all is_upsert []" by simp
    ultimately show ?thesis by blast
  qed
qed

lemma extract_trace:
  "\<exists>cs. list_all is_upsert cs
      \<and> (\<forall>g. extract_entities n src (st\<lparr>store := g\<rparr>) fp
              = with_store (fold apply_call cs g) (extract_entities n src st fp))"
  "\<exists>cs. list_all is_upsert cs
      \<and> (\<forall>g. extract_children ns src (st\<lparr>store := g\<rparr>) fp
              = with_store (fold apply_call cs g) (extract_children ns src st fp))"
proof (induction n src st fp and ns src st fp rule: extract_entities_extract_children.induct)
  case (1 fl ty s e par cs src st fp)
  let ?n = "Node fl ty s e par cs"
  obtain c0 where c0: "list_all is_upsert c0"
    "\<And>g. declare_entity ?n src (st\<lparr>store := g\<rparr>) fp
              = with_store (fold apply_call c0 g) (declare_entity ?n src st fp)"
    using declare_entity_trace[of ?n src st fp] by blast
  show ?case
  proof (cases "declare_entity ?n src st fp")
    case (Done st1)
    obtain c2 where c2: "list_all is_upsert c2"
      "\<And>g. extract_children cs src (st1\<lparr>store := g\<rparr>) fp
              = with_store (fold apply_call c2 g) (extract_children cs src st1 fp)"
      using "1.IH"[OF Done] by blast
    have "\<forall>g. extract_entities ?n src (st\<lparr>store := g\<rparr>) fp
              = with_store (fold apply_call (c0 @ c2) g) (extract_entities ?n src st fp)"
      using Done c0(2) c2(2) by simp
    moreover have "list_all is_upsert (c0 @ c2)" using c0(1) c2(1) by simp
    ultimately show ?thesis by blast
  next
    case (Raised err st1)
    have "\<forall>g. extract_entities ?n src (st\<lparr>store := g\<rparr>) fp
              = with_store (fold apply_call c0 g) (extract_entities ?n src st fp)"
      using Raised c0(2) by simp
    then show ?thesis using c0(1) by blast
  qed
next
  case (2 src st fp)
  have "\<forall>g. extract_children [] src (st\<lparr>store := g\<rparr>) fp
              = with_store (fold apply_call [] g) (extract_children [] src st fp)"
    by simp
  moreover have "list_all is_upsert []" by simp
  ultimately show ?case by blast
next
  case (3 child rest src st fp)
  obtain c0 where c0: "list_all is_upsert c0"
    "\<And>g. extract_entities child src (st\<lparr>store := g\<rparr>) fp
              = with_store (fold apply_call c0 g) (extract_entities child src st fp)"
    using "3.IH"(1) by blast
  show ?case
  proof (cases "extract_entities child src st fp")
    case (Done st1)
    obtain c2 where c2: "list_all is_upsert c2"
      "\<And>g. extract_children rest src (st1\<lparr>store := g\<rparr>) fp
              = with_store (fold apply_call c2 g) (extract_children rest src st1 fp)"
      using "3.IH"(2)[OF Done] by blast
    have "\<forall>g. extract_children (child # rest) src (st\<lparr>store := g\<rparr>) fp
              = with_store (fold apply_call (c0 @ c2) g) (extract_children (child # rest) src st fp)"
      using Done c0(2) c2(2) by simp
    moreover have "list_all is_upsert (c0 @ c2)" using c0(1) c2(1) by simp
    ultimately show ?thesis by blast
  next
    case (Raised err st1)
    have "\<forall>g. extract_children (child # rest) src (st\<lparr>store := g\<rparr>) fp
              = with_store (fold apply_call c0 g) (extract_children (child # rest) src st fp)"
      using Raised c0(2) by simp
    then show ?thesis using c0(1) by blast
  qed
qed

text \<open>
  Claim C9. Entity extraction run a second time on the same tree, from the same entity
  lists and on the database the first run left, leaves that database as it is: no node
  and no relationship is added. In particular a class upsert and a method upsert repeated
  on their own result change nothing.
\<close>

theorem entity_upserts_idempotent:
  "store (state_of (extract_entities root source_code
       (st\<lparr>store := store (state_of (extract_entities root source_code st file_path))\<rparr>)
       file_path))
     = store (state_of (extract_entities root source_code st file_path))
   \<and> create_class_node_transaction n f (create_class_node_transaction n f g)
       = create_class_node_transaction n f g
   \<and> create_method_node_transaction m c f (create_method_node_transaction m c f g)
       = create_method_node_transaction m c f g"
proof -
  obtain cs where cs: "list_all is_upsert cs"
    "\<And>g. extract_entities root source_code (st\<lparr>store := g\<rparr>) file_path
              = with_store (fold apply_call cs g) (extract_entities root source_code st file_path)"
    using extract_trace(1)[of root source_code st file_path] by blast
  have "extract_entities root source_code st file_path
          = with_store (fold apply_call cs (store st))
              (extract_entities root source_code st file_path)"
    using cs(2)[of "store st"] by simp
  then have one: "store (state_of (extract_entities root source_code st file_path))
          = fold apply_call cs (store st)"
    using store_with_store by metis
  have two: "store (state_of (extract_entities root source_code
       (st\<lparr>store := fold apply_call cs (store st)\<rparr>) file_path))
          = fold apply_call cs (fold apply_call cs (store st))"
    unfolding cs(2) by (rule store_with_store)
  have c1: "store (state_of (extract_entities root source_code
       (st\<lparr>store := store (state_of (extract_entities root source_code st file_path))\<rparr>)
       file_path))
     = store (state_of (extract_entities root source_code st file_path))"
    unfolding one two using cs(1) by (rule upserts_twice)
  have c2: "create_class_node_transaction n f (create_class_node_transaction n f g)
       = create_class_node_transaction n f g"
    using no_op_after[of "CreateClassNode n f" g] by (simp add: no_op_def)
  have c3: "create_method_node_transaction m c f (create_method_node_transaction m c f g)
       = create_method_node_transaction m c f g"
    using no_op_after[of "CreateMethodNode m c f" g] by (simp add: no_op_def)
  show ?thesis using c1 c2 c3 by blast
qed

theorem entity_upserts_idempotent_witness:
  "store (state_of (extract_entities ex1_tree (PyBytes ex1_src)
       ((new_scan empty_graph)\<lparr>store := store ex1_state\<rparr>) ''proj/A.java''))
     = store ex1_state
   \<and> store ex1_state =
       \<lparr>nodes = [\<lparr>label = ''Class'', props = [(''name'', ''A''), (''file'', ''proj/A.java'')]\<rparr>,
                 \<lparr>label = ''Method'', props = [(''name'', ''f''), (''class'', ''A''),
                                                (''file'', ''proj/A.java'')]\<rparr>,
                 \<lparr>label = ''Class'', props = [(''name'', ''B''), (''file'', ''proj/A.java'')]\<rparr>,
                 \<lparr>label = ''Method'', props = [(''name'', ''g''), (''class'', ''B''),
                                                (''file'', ''proj/A.java'')]\<rparr>],
        rels = [(0, ''HAS_METHOD'', 1), (2, ''HAS_METHOD'', 3)]\<rparr>"
proof -
  have c1: "store (state_of (extract_entities ex1_tree (PyBytes ex1_src)
       ((new_scan empty_graph)\<lparr>store := store ex1_state\<rparr>) ''proj/A.java''))
     = store ex1_state"
    unfolding ex1_state_def
    using entity_upserts_idempotent[of ex1_tree "PyBytes ex1_src" "new_scan empty_graph"
        "''proj/A.java''"]
    by blast
  have c2: "store ex1_state =
       \<lparr>nodes = [\<lparr>label = ''Class'', props = [(''name'', ''A''), (''file'', ''proj/A.java'')]\<rparr>,
                 \<lparr>label = ''Method'', props = [(''name'', ''f''), (''class'', ''A''),
                                                (''file'', ''proj/A.java'')]\<rparr>,
                 \<lparr>label = ''Class'', props = [(''name'', ''B''), (''file'', ''proj/A.java'')]\<rparr>,
                 \<lparr>label = ''Method'', props = [(''name'', ''g''), (''class'', ''B''),
                                                (''file'', ''proj/A.java'')]\<rparr>],
        rels = [(0, ''HAS_METHOD'', 1), (2, ''HAS_METHOD'', 3)]\<rparr>"
    by code_simp
  show ?thesis by (rule conjI[OF c1 c2])
qed

end
